theory Spec2Isabelle
  imports Complex_Main "HOL-Library.Sublist"
begin

section \<open>Strings of the pronunciation matcher\<close>

text \<open>
  The matcher (\<^verbatim>\<open>normalizeString\<close>, \<^verbatim>\<open>calculateSimilarity\<close> and \<^verbatim>\<open>calculateMatch\<close>,
  the utility functions under \<^verbatim>\<open>useVoicePractice\<close>) works on JavaScript strings. A
  JavaScript string is a sequence of UTF-16 code units; \<^verbatim>\<open>length\<close>, indexing,
  \<^verbatim>\<open>===\<close>, \<^verbatim>\<open>includes\<close> and the regular expressions of the source (which carry
  no \<^verbatim>\<open>u\<close> flag) all work on code units. A code unit is modelled as a natural number
  (below 65536 in every real string); the theorems below hold for all lists, so in
  particular for all strings. \<open>js\<close> turns an ASCII literal into such a string.
\<close>

type_synonym code_unit = nat
type_synonym jsstring = "code_unit list"

definition js :: "string \<Rightarrow> jsstring" where
  "js s = map of_char s"

text \<open>
  The characters matched by \<^verbatim>\<open>\s\<close> and removed by \<^verbatim>\<open>trim()\<close>: ECMAScript's
  WhiteSpace and LineTerminator code points (TAB, LF, VT, FF, CR, SPACE, NBSP,
  U+1680, U+2000 to U+200A, U+2028, U+2029, U+202F, U+205F, U+3000, U+FEFF).
\<close>

definition is_space :: "code_unit \<Rightarrow> bool" where
  "is_space c \<longleftrightarrow>
     c = 0x9 \<or> c = 0xA \<or> c = 0xB \<or> c = 0xC \<or> c = 0xD \<or> c = 0x20 \<or> c = 0xA0
     \<or> c = 0x1680 \<or> (0x2000 \<le> c \<and> c \<le> 0x200A) \<or> c = 0x2028 \<or> c = 0x2029
     \<or> c = 0x202F \<or> c = 0x205F \<or> c = 0x3000 \<or> c = 0xFEFF"

definition is_lower_az :: "code_unit \<Rightarrow> bool" where
  "is_lower_az c \<longleftrightarrow> 0x61 \<le> c \<and> c \<le> 0x7A"

definition is_digit :: "code_unit \<Rightarrow> bool" where
  "is_digit c \<longleftrightarrow> 0x30 \<le> c \<and> c \<le> 0x39"

text \<open>
  \<^verbatim>\<open>toLowerCase()\<close> applies the Unicode lower-case mapping. The only code units
  whose image contains a letter a-z, a digit or white space are A-Z (mapped to a-z),
  U+0130 (mapped to \<^verbatim>\<open>i\<close> followed by U+0307) and U+212A, the Kelvin sign (mapped to
  \<^verbatim>\<open>k\<close>); these are modelled exactly. Every other code unit is mapped to itself
  here: its real image is never empty, and neither the code unit nor its image
  contains a-z, 0-9 or white space, so \<^verbatim>\<open>trim()\<close> stops at it and the following
  \<^verbatim>\<open>replace(/[^a-z0-9\s]/g, '')\<close> deletes it in both cases. \<open>normalizeString\<close>
  below therefore returns what the source returns on every string.
\<close>

definition lower_unit :: "code_unit \<Rightarrow> jsstring" where
  "lower_unit c =
     (if 0x41 \<le> c \<and> c \<le> 0x5A then [c + 0x20]
      else if c = 0x130 then [0x69, 0x307]
      else if c = 0x212A then [0x6B]
      else [c])"

definition toLowerCase :: "jsstring \<Rightarrow> jsstring" where
  "toLowerCase s = concat (map lower_unit s)"

text \<open>\<^verbatim>\<open>trim()\<close>: the white space at both ends is removed.\<close>

definition trim :: "jsstring \<Rightarrow> jsstring" where
  "trim s = rev (dropWhile is_space (rev (dropWhile is_space s)))"

text \<open>\<^verbatim>\<open>.replace(/[^a-z0-9\s]/g, '')\<close>: every other character is deleted.\<close>

definition strip_other :: "jsstring \<Rightarrow> jsstring" where
  "strip_other s = filter (\<lambda>c. is_lower_az c \<or> is_digit c \<or> is_space c) s"

text \<open>\<^verbatim>\<open>.replace(/\s+/g, ' ')\<close>: every maximal run of white space becomes one U+0020.\<close>

function collapse_spaces :: "jsstring \<Rightarrow> jsstring" where
  "collapse_spaces [] = []"
| "collapse_spaces (c # cs) =
     (if is_space c then 0x20 # collapse_spaces (dropWhile is_space cs)
      else c # collapse_spaces cs)"
  by pat_completeness auto
termination
  by (relation "measure length") (auto simp: length_dropWhile_le less_Suc_eq_le)

definition normalizeString :: "jsstring \<Rightarrow> jsstring" where
  "normalizeString str = collapse_spaces (strip_other (trim (toLowerCase str)))"

section \<open>Edit distance\<close>

text \<open>
  The edit distance of the specification: the least number of single-character
  insertions, deletions and substitutions that transform one string into the other.
  \<open>edit1 b c\<close> is one such operation, \<open>edits n a b\<close> a sequence of \<open>n\<close> of them.
\<close>

inductive edit1 :: "'a list \<Rightarrow> 'a list \<Rightarrow> bool" where
  ins: "edit1 (u @ v) (u @ x # v)"
| del: "edit1 (u @ x # v) (u @ v)"
| sub: "edit1 (u @ x # v) (u @ y # v)"

inductive edits :: "nat \<Rightarrow> 'a list \<Rightarrow> 'a list \<Rightarrow> bool" where
  none: "edits 0 a a"
| step: "edits n a b \<Longrightarrow> edit1 b c \<Longrightarrow> edits (Suc n) a c"

definition edit_distance :: "'a list \<Rightarrow> 'a list \<Rightarrow> nat" where
  "edit_distance a b = (LEAST n. edits n a b)"

text \<open>The recurrence that the matrix of the source tabulates, as a recursive function.\<close>

fun lev :: "'a list \<Rightarrow> 'a list \<Rightarrow> nat" where
  "lev [] ys = length ys"
| "lev (x # xs) [] = Suc (length xs)"
| "lev (x # xs) (y # ys) =
     min (min (lev xs (y # ys) + 1) (lev (x # xs) ys + 1))
         (lev xs ys + (if x = y then 0 else 1))"

section \<open>Double-precision arithmetic\<close>

text \<open>
  The source computes \<^verbatim>\<open>Math.round((1 - distance / maxLen) * 100)\<close> on JavaScript
  numbers, which are IEEE 754 double-precision values: the division, the subtraction
  and the multiplication are each rounded to the nearest double, ties to even. A
  finite double is modelled by the real number it denotes, and \<open>fl\<close> rounds a real
  number to the nearest double: \<open>rne\<close> rounds to the nearest integer, ties to even;
  \<open>exponent q\<close> is the binary exponent of \<open>q > 0\<close>, that is
  \<open>2 powi exponent q \<le> q < 2 powi (exponent q + 1)\<close>; the significand has 53 bits
  and exponents below \<open>-1022\<close> are subnormal. Overflow is not modelled: no value
  computed here exceeds 100.
\<close>

definition rne :: "real \<Rightarrow> int" where
  "rne x =
     (let f = \<lfloor>x\<rfloor>; r = x - of_int f
      in if r < 1 / 2 then f else if 1 / 2 < r then f + 1
         else if even f then f else f + 1)"

lemma floor_half_less: "1 < (x::real) \<Longrightarrow> \<lfloor>x / 2\<rfloor> < \<lfloor>x\<rfloor>"
proof -
  assume x: "1 < x"
  then have "1 \<le> \<lfloor>x\<rfloor>" by simp
  then have "(1::real) \<le> of_int \<lfloor>x\<rfloor>" by linarith
  moreover have "x < of_int \<lfloor>x\<rfloor> + 1" by linarith
  ultimately have "x / 2 < of_int \<lfloor>x\<rfloor>" by linarith
  then show ?thesis by (simp only: floor_less_iff)
qed

function halvings :: "real \<Rightarrow> nat" where
  "halvings q = (if q < 2 then 0 else Suc (halvings (q / 2)))"
  by pat_completeness auto
termination
proof (relation "measure (\<lambda>q. nat \<lfloor>q\<rfloor>)")
  fix q :: real
  assume "\<not> q < 2"
  then have "\<lfloor>q / 2\<rfloor> < \<lfloor>q\<rfloor>" "0 < \<lfloor>q\<rfloor>"
    by (simp_all add: floor_half_less)
  then show "(q / 2, q) \<in> measure (\<lambda>q. nat \<lfloor>q\<rfloor>)" by simp
qed simp

function doublings :: "real \<Rightarrow> nat" where
  "doublings q = (if q \<le> 0 \<or> 1 \<le> q then 0 else Suc (doublings (2 * q)))"
  by pat_completeness auto
termination
proof (relation "measure (\<lambda>q. nat \<lfloor>1 / q\<rfloor>)")
  fix q :: real
  assume "\<not> (q \<le> 0 \<or> 1 \<le> q)"
  then have x: "1 < 1 / q" by simp
  have e: "1 / (2 * q) = 1 / q / 2" by simp
  have "\<lfloor>1 / (2 * q)\<rfloor> < \<lfloor>1 / q\<rfloor>"
    unfolding e using x by (rule floor_half_less)
  moreover from x have "0 < \<lfloor>1 / q\<rfloor>" by simp
  ultimately show "(2 * q, q) \<in> measure (\<lambda>q. nat \<lfloor>1 / q\<rfloor>)"
    by (simp del: floor_less_cancel)
qed simp

declare halvings.simps [simp del] doublings.simps [simp del]

definition exponent :: "real \<Rightarrow> int" where
  "exponent q = (if 1 \<le> q then int (halvings q) else - int (doublings q))"

definition fl :: "real \<Rightarrow> real" where
  "fl q =
     (if q = 0 then 0
      else let k = 52 - max (exponent \<bar>q\<bar>) (- 1022)
           in of_int (rne (q * 2 powi k)) * 2 powi (- k))"

text \<open>
  \<^verbatim>\<open>Math.round\<close> returns the nearest integer, a tie going towards plus infinity.
\<close>

definition Math_round :: "real \<Rightarrow> int" where
  "Math_round x = \<lfloor>x + 1 / 2\<rfloor>"

text \<open>
  The last line of \<^verbatim>\<open>calculateSimilarity\<close>,
  \<^verbatim>\<open>Math.round((1 - distance / maxLen) * 100)\<close>, with each operation rounded.
  (\<open>distance\<close> and \<open>maxLen\<close> are integers below \<open>2 ^ 53\<close> for every real string and
  so are doubles themselves.)
\<close>

definition double_score :: "nat \<Rightarrow> nat \<Rightarrow> int" where
  "double_score distance maxLen =
     Math_round (fl (fl (1 - fl (real distance / real maxLen)) * 100))"

text \<open>The same formula in exact arithmetic, as the specification writes it.\<close>

definition exact_score :: "nat \<Rightarrow> nat \<Rightarrow> int" where
  "exact_score d L = Math_round ((1 - real d / real L) * 100)"

section \<open>The similarity score\<close>

text \<open>
  \<^verbatim>\<open>calculateSimilarity\<close> fills a matrix of \<open>len1 + 1\<close> rows and \<open>len2 + 1\<close> columns.
  The matrix is a list of rows; a cell is \<^verbatim>\<open>null\<close> (the initial fill), a hole
  (an index that a write skipped over) or a number. What JavaScript does outside the
  bounds is written out:
  \<^item> reading \<^verbatim>\<open>matrix[i][j]\<close> or writing \<^verbatim>\<open>matrix[i][j] = v\<close> with no row \<open>i\<close>
    throws a \<^verbatim>\<open>TypeError\<close> (\<^verbatim>\<open>matrix[i]\<close> is \<^verbatim>\<open>undefined\<close>);
  \<^item> a write beyond the end of a row extends the row, leaving holes;
  \<^item> \<^verbatim>\<open>null\<close> is converted to 0 by the arithmetic;
  \<^item> a hole or a column beyond the end of the row reads as \<^verbatim>\<open>undefined\<close>, which the
    arithmetic turns into \<^verbatim>\<open>NaN\<close>. JavaScript would go on computing with \<^verbatim>\<open>NaN\<close>;
    the model stops with the failure \<open>NotANumber\<close> instead, so that a result
    \<open>Inr n\<close> always is a number computed from numbers.
\<close>

datatype js_error = TypeError | NotANumber

datatype cell = Null | Hole | Num nat

type_synonym matrix = "cell list list"

definition set_index :: "cell list \<Rightarrow> nat \<Rightarrow> cell \<Rightarrow> cell list" where
  "set_index row j v =
     (if j < length row then row[j := v]
      else row @ replicate (j - length row) Hole @ [v])"

definition read_cell :: "matrix \<Rightarrow> nat \<Rightarrow> nat \<Rightarrow> js_error + nat" where
  "read_cell m i j =
     (if length m \<le> i then Inl TypeError
      else if length (m ! i) \<le> j then Inl NotANumber
      else case m ! i ! j of Null \<Rightarrow> Inr 0 | Hole \<Rightarrow> Inl NotANumber | Num v \<Rightarrow> Inr v)"

definition write_cell :: "matrix \<Rightarrow> nat \<Rightarrow> nat \<Rightarrow> nat \<Rightarrow> js_error + matrix" where
  "write_cell m i j v =
     (if length m \<le> i then Inl TypeError
      else Inr (m[i := set_index (m ! i) j (Num v)]))"

text \<open>\<^verbatim>\<open>str[k]\<close>: the code unit at index \<open>k\<close>, or \<^verbatim>\<open>undefined\<close> (\<open>None\<close>).\<close>

definition char_at :: "jsstring \<Rightarrow> nat \<Rightarrow> code_unit option" where
  "char_at s k = (if k < length s then Some (s ! k) else None)"

text \<open>
  A counting loop \<^verbatim>\<open>for (let i = lo; i <= hi; i++) body\<close> whose body changes neither
  \<open>i\<close> nor the bound runs the body for \<open>i = lo, ..., hi\<close> in turn, that is over the list
  \<open>[lo..<Suc hi]\<close>; a failure in the body ends the loop.
\<close>

fun for_each :: "nat list \<Rightarrow> (nat \<Rightarrow> 's \<Rightarrow> js_error + 's) \<Rightarrow> 's \<Rightarrow> js_error + 's" where
  "for_each [] body s = Inr s"
| "for_each (i # is) body s =
     (case body i s of Inl e \<Rightarrow> Inl e | Inr s' \<Rightarrow> for_each is body s')"

text \<open>
  The body of the inner loop. It only runs with \<open>1 \<le> i\<close> and \<open>1 \<le> j\<close>, where the
  subtraction on natural numbers is the subtraction of the source.
\<close>

definition fill_cell :: "jsstring \<Rightarrow> jsstring \<Rightarrow> nat \<Rightarrow> nat \<Rightarrow> matrix \<Rightarrow> js_error + matrix" where
  "fill_cell str1 str2 i j m =
     (let cost = (if char_at str1 (i - 1) = char_at str2 (j - 1) then 0 else 1) in
      case read_cell m (i - 1) j of Inl e \<Rightarrow> Inl e | Inr up \<Rightarrow>
      case read_cell m i (j - 1) of Inl e \<Rightarrow> Inl e | Inr left \<Rightarrow>
      case read_cell m (i - 1) (j - 1) of Inl e \<Rightarrow> Inl e | Inr diag \<Rightarrow>
      write_cell m i j (min (min (up + 1) (left + 1)) (diag + cost)))"

text \<open>The allocation of the matrix and the three loops of \<^verbatim>\<open>calculateSimilarity\<close>.\<close>

definition distance_matrix :: "jsstring \<Rightarrow> jsstring \<Rightarrow> js_error + matrix" where
  "distance_matrix str1 str2 =
     (let len1 = length str1; len2 = length str2;
          matrix = replicate (len1 + 1) (replicate (len2 + 1) Null) in
      case for_each [0..<Suc len1] (\<lambda>i m. write_cell m i 0 i) matrix of
        Inl e \<Rightarrow> Inl e
      | Inr m1 \<Rightarrow>
      case for_each [0..<Suc len2] (\<lambda>j m. write_cell m 0 j j) m1 of
        Inl e \<Rightarrow> Inl e
      | Inr m2 \<Rightarrow>
        for_each [1..<Suc len1]
          (\<lambda>i m. for_each [1..<Suc len2] (\<lambda>j m. fill_cell str1 str2 i j m) m) m2)"

definition calculateSimilarity :: "jsstring \<Rightarrow> jsstring \<Rightarrow> js_error + int" where
  "calculateSimilarity str1 str2 =
     (let len1 = length str1; len2 = length str2 in
      if len1 = 0 then Inr (if len2 = 0 then 100 else 0)
      else if len2 = 0 then Inr 0
      else
        case distance_matrix str1 str2 of Inl e \<Rightarrow> Inl e | Inr matrix \<Rightarrow>
        case read_cell matrix len1 len2 of Inl e \<Rightarrow> Inl e | Inr distance \<Rightarrow>
          let maxLen = max len1 len2
          in Inr (double_score distance maxLen))"

section \<open>The match classifier\<close>

text \<open>
  The result type \<^verbatim>\<open>VoicePracticeResult\<close>; the tiers are the string literals
  \<^verbatim>\<open>'perfect'\<close>, \<^verbatim>\<open>'excellent'\<close>, \<^verbatim>\<open>'good'\<close>, \<^verbatim>\<open>'close'\<close>, \<^verbatim>\<open>'partial'\<close>,
  \<^verbatim>\<open>'tryagain'\<close> and \<^verbatim>\<open>'different'\<close> of the source.
\<close>

datatype feedback = Perfect | Excellent | Good | Close | Partial | TryAgain | Different

record VoicePracticeResult =
  score :: int
  feedback :: feedback
  transcript :: jsstring

text \<open>\<^verbatim>\<open>s.includes(t)\<close>, here \<open>js_includes s t\<close>: \<open>t\<close> occurs in \<open>s\<close> at some position.\<close>

fun js_includes :: "jsstring \<Rightarrow> jsstring \<Rightarrow> bool" where
  "js_includes [] t = (t = [])"
| "js_includes (c # cs) t = (prefix t (c # cs) \<or> js_includes cs t)"

text \<open>
  The loop \<^verbatim>\<open>for (const alt of alternatives)\<close> of \<^verbatim>\<open>calculateMatch\<close>, which returns
  from the function at the first alternative that matches.
\<close>

fun alternative_matches :: "jsstring list \<Rightarrow> jsstring \<Rightarrow> bool" where
  "alternative_matches [] normalizedTarget = False"
| "alternative_matches (alt # alts) normalizedTarget =
     (if normalizeString alt = normalizedTarget then True
      else alternative_matches alts normalizedTarget)"

definition calculateMatch ::
  "jsstring \<Rightarrow> jsstring \<Rightarrow> jsstring list \<Rightarrow> js_error + VoicePracticeResult" where
  "calculateMatch target spoken alternatives =
     (let normalizedTarget = normalizeString target;
          normalizedSpoken = normalizeString spoken in
      if normalizedTarget = normalizedSpoken
      then Inr \<lparr>score = 100, feedback = Perfect, transcript = spoken\<rparr>
      else if alternative_matches alternatives normalizedTarget
      then Inr \<lparr>score = 95, feedback = Excellent, transcript = spoken\<rparr>
      else
        case calculateSimilarity normalizedTarget normalizedSpoken of
          Inl e \<Rightarrow> Inl e
        | Inr similarity \<Rightarrow>
            if js_includes normalizedSpoken normalizedTarget
            then Inr \<lparr>score = max similarity 85, feedback = Good, transcript = spoken\<rparr>
            else if js_includes normalizedTarget normalizedSpoken \<and> 2 < length normalizedSpoken
            then Inr \<lparr>score = max similarity 70, feedback = Partial, transcript = spoken\<rparr>
            else if 80 \<le> similarity
            then Inr \<lparr>score = similarity, feedback = Good, transcript = spoken\<rparr>
            else if 60 \<le> similarity
            then Inr \<lparr>score = similarity, feedback = Close, transcript = spoken\<rparr>
            else if 40 \<le> similarity
            then Inr \<lparr>score = similarity, feedback = TryAgain, transcript = spoken\<rparr>
            else Inr \<lparr>score = similarity, feedback = Different, transcript = spoken\<rparr>)"

section \<open>The contracts of the specification\<close>

text \<open>
  Section 4.2, with the formula evaluated as the source evaluates it, and with the
  formula in exact arithmetic.
\<close>

definition similarity :: "jsstring \<Rightarrow> jsstring \<Rightarrow> int" where
  "similarity a b =
     (if a = [] \<and> b = [] then 100
      else if a = [] \<or> b = [] then 0
      else double_score (edit_distance a b) (max (length a) (length b)))"

definition exact_similarity :: "jsstring \<Rightarrow> jsstring \<Rightarrow> int" where
  "exact_similarity a b =
     (if a = [] \<and> b = [] then 100
      else if a = [] \<or> b = [] then 0
      else exact_score (edit_distance a b) (max (length a) (length b)))"

text \<open>
  Section 4.3: the ordered rules of the classifier, the first matching rule deciding.
  \<open>sublist t s\<close> says that \<open>s\<close> contains \<open>t\<close> as a substring. The rules are written once,
  over the similarity operation \<open>sim\<close> that rule 3 calls: \<open>classify_spec\<close> is the rule
  set with the similarity of section 4.2 as the specification writes it (exact
  arithmetic), \<open>classify\<close> the rule set with the same similarity evaluated in
  double-precision arithmetic.
\<close>

definition classify_with ::
  "(jsstring \<Rightarrow> jsstring \<Rightarrow> int) \<Rightarrow> jsstring \<Rightarrow> jsstring \<Rightarrow> jsstring list \<Rightarrow> int \<times> feedback" where
  "classify_with similarity_of target spokenPrimary alternatives =
     (let t = normalizeString target; s = normalizeString spokenPrimary;
          sim = similarity_of t s in
      if s = t then (100, Perfect)
      else if \<exists>alt \<in> set alternatives. normalizeString alt = t then (95, Excellent)
      else if sublist t s then (max sim 85, Good)
      else if sublist s t \<and> 2 < length s then (max sim 70, Partial)
      else if 80 \<le> sim then (sim, Good)
      else if 60 \<le> sim then (sim, Close)
      else if 40 \<le> sim then (sim, TryAgain)
      else (sim, Different))"

definition classify_spec :: "jsstring \<Rightarrow> jsstring \<Rightarrow> jsstring list \<Rightarrow> int \<times> feedback" where
  "classify_spec target spokenPrimary alternatives =
     classify_with exact_similarity target spokenPrimary alternatives"

definition classify :: "jsstring \<Rightarrow> jsstring \<Rightarrow> jsstring list \<Rightarrow> int \<times> feedback" where
  "classify target spokenPrimary alternatives =
     classify_with similarity target spokenPrimary alternatives"

section \<open>Spaced-repetition progress engine\<close>

text \<open>
  The review screen (\<^verbatim>\<open>src/components/VocabularyReview.tsx\<close>) obtains
  \<^verbatim>\<open>getCardProgress\<close>, \<^verbatim>\<open>updateCardProgress\<close> and \<^verbatim>\<open>getDueCards\<close> from the hook
  \<^verbatim>\<open>useSlangProgress\<close>, whose file is not among the sources; only its caller is.
  The review operation is therefore modelled from sections 3, 4.4 and 6 of the
  specification. Timestamps are integers (milliseconds), ratings and levels are
  integers.
\<close>

text \<open>
  Modelled from the spec: the record \<^verbatim>\<open>CardProgress\<close> of section 3 (the source of
  \<^verbatim>\<open>useSlangProgress\<close>, which declares the stored progress, is missing). An absent
  timestamp is \<open>None\<close>.
\<close>

record CardProgress =
  cardId :: string
  level :: int
  lastReviewedAt :: "int option"
  dueAt :: "int option"

text \<open>
  Modelled from the spec: the error taxonomy of section 7, with \<^verbatim>\<open>InvalidRating\<close> as
  its only failure (the source of \<^verbatim>\<open>useSlangProgress\<close> is missing).
\<close>

datatype core_error = InvalidRating

text \<open>
  Modelled from the spec: the interval table of section 4.4 (the source of
  \<^verbatim>\<open>useSlangProgress\<close> is missing). Level 0 is due immediately, levels 1 to 5
  are due after 1, 3, 7, 14 and 30 days.
\<close>

definition interval_days :: "int \<Rightarrow> int" where
  "interval_days l =
     (if l \<le> 0 then 0 else if l = 1 then 1 else if l = 2 then 3
      else if l = 3 then 7 else if l = 4 then 14 else 30)"

text \<open>
  Modelled from the spec: the length of a day in the unit of the timestamps, for the
  intervals of section 4.4 (the source of \<^verbatim>\<open>useSlangProgress\<close> is missing).
\<close>

definition day_ms :: int where
  "day_ms = 86400000"

text \<open>
  Modelled from the spec: \<^verbatim>\<open>recordReview(progress, rating, now)\<close> of sections 4.4
  and 6 (the source of \<^verbatim>\<open>useSlangProgress\<close> is missing). A rating outside 1..5
  fails with \<open>InvalidRating\<close>; otherwise a rating of at least 3 promotes the level,
  capped at 5, a lower rating demotes it, floored at 0, and the due date is
  \<open>now\<close> plus the interval of the new level.
\<close>

definition recordReview :: "CardProgress \<Rightarrow> int \<Rightarrow> int \<Rightarrow> core_error + CardProgress" where
  "recordReview progress rating now =
     (if rating < 1 \<or> 5 < rating then Inl InvalidRating
      else
        let level' = (if 3 \<le> rating then min (level progress + 1) 5
                      else max (level progress - 1) 0)
        in Inr (progress\<lparr> level := level',
                           lastReviewedAt := Some now,
                           dueAt := Some (now + interval_days level' * day_ms) \<rparr>))"

text \<open>
  Modelled from the spec: the record \<^verbatim>\<open>VocabularyCard\<close> of section 3 (the catalog
  \<^verbatim>\<open>slangData\<close> and its type are not among the sources). The key \<^verbatim>\<open>id\<close> is the field
  \<open>card_key\<close> and the display text \<^verbatim>\<open>term\<close> the field \<open>term_text\<close>; the category
  tags are not listed in the specification and are kept as strings.
\<close>

datatype difficulty = Beginner | Intermediate | Advanced

record VocabularyCard =
  card_key :: string
  term_text :: string
  meaning :: string
  example :: string
  category :: string
  difficulty :: difficulty

text \<open>
  Modelled from the spec: the progress records of one learner, keyed by card id, as the
  persistence collaborator of sections 3 and 6 holds them (the source of
  \<^verbatim>\<open>useSlangProgress\<close>, which keeps them in local storage, is missing).
\<close>

type_synonym progress_store = "string \<rightharpoonup> CardProgress"

text \<open>
  Modelled from the spec: \<^verbatim>\<open>getCardProgress(progress, cardId)\<close> of section 6 (the source
  of \<^verbatim>\<open>useSlangProgress\<close> is missing): the stored record, or the default unseen record
  with level 0 and no due date, which means due now.
\<close>

definition getCardProgress :: "progress_store \<Rightarrow> string \<Rightarrow> CardProgress" where
  "getCardProgress progress k =
     (case progress k of
        Some p \<Rightarrow> p
      | None \<Rightarrow> \<lparr>cardId = k, level = 0, lastReviewedAt = None, dueAt = None\<rparr>)"

text \<open>
  Modelled from the spec: the selection of section 4.5 (the source of
  \<^verbatim>\<open>useSlangProgress\<close> is missing). A card is due when it has no progress record, or
  no due date, or a due date that is not after \<open>now\<close>. Cards never seen come first,
  then the others by ascending level; \<open>sort_key\<close> is stable, so ties keep the order
  of the catalog.
\<close>

definition is_due :: "progress_store \<Rightarrow> int \<Rightarrow> VocabularyCard \<Rightarrow> bool" where
  "is_due progress now entry =
     (case progress (card_key entry) of
        None \<Rightarrow> True
      | Some p \<Rightarrow> (case dueAt p of None \<Rightarrow> True | Some t \<Rightarrow> t \<le> now))"

definition due_rank :: "progress_store \<Rightarrow> VocabularyCard \<Rightarrow> int" where
  "due_rank progress entry =
     (case progress (card_key entry) of None \<Rightarrow> - 1 | Some p \<Rightarrow> level p)"

definition getDueCards :: "VocabularyCard list \<Rightarrow> progress_store \<Rightarrow> int \<Rightarrow> VocabularyCard list" where
  "getDueCards catalog progress now =
     sort_key (due_rank progress) (filter (is_due progress now) catalog)"

text \<open>
  Modelled from the spec: the update that the review screen calls,
  \<^verbatim>\<open>updateCardProgress(cardId, rating)\<close> (its source, \<^verbatim>\<open>useSlangProgress\<close>, is missing),
  as sections 3, 4.4 and 6 describe it: the record of the card is read with
  \<open>getCardProgress\<close>, reviewed with \<open>recordReview\<close>, and the record that the review
  returns is stored. The result is the failure, if any, and the store after the call;
  a review that fails returns no record, so there is nothing to store.
\<close>

definition updateCardProgress ::
  "progress_store \<Rightarrow> string \<Rightarrow> int \<Rightarrow> int \<Rightarrow> core_error option \<times> progress_store" where
  "updateCardProgress progress k rating now =
     (case recordReview (getCardProgress progress k) rating now of
        Inl e \<Rightarrow> (Some e, progress)
      | Inr p \<Rightarrow> (None, progress(k \<mapsto> p)))"

text \<open>
  Modelled from the spec: the interface of the core, section 6, which exposes exactly
  four operations. The pronunciation operation is \<open>calculateMatch\<close> of the source; the
  other three are the operations above. A call either fails, with the failure of the
  review or with a failure of the matcher, or returns its result.
\<close>

datatype core_call =
    EvaluatePronunciation jsstring jsstring "jsstring list"
  | RecordReview CardProgress int int
  | GetDueCards "VocabularyCard list" progress_store int
  | GetCardProgress progress_store string

datatype core_failure = Rating core_error | Matcher js_error

datatype core_result =
    Evaluated VoicePracticeResult
  | Reviewed CardProgress
  | DueCards "VocabularyCard list"
  | Progress CardProgress

fun core :: "core_call \<Rightarrow> core_failure + core_result" where
  "core (EvaluatePronunciation target spoken alternatives) =
     (case calculateMatch target spoken alternatives of
        Inl e \<Rightarrow> Inl (Matcher e)
      | Inr r \<Rightarrow> Inr (Evaluated r))"
| "core (RecordReview progress rating now) =
     (case recordReview progress rating now of
        Inl e \<Rightarrow> Inl (Rating e)
      | Inr p \<Rightarrow> Inr (Reviewed p))"
| "core (GetDueCards catalog progress now) = Inr (DueCards (getDueCards catalog progress now))"
| "core (GetCardProgress progress k) = Inr (Progress (getCardProgress progress k))"

section \<open>Normalization: what the result looks like\<close>

text \<open>
  A plain character is a lower-case ASCII letter, a digit or the space U+0020; a string
  is single-spaced when no two neighbouring characters are both spaces.
\<close>

definition plain :: "code_unit \<Rightarrow> bool" where
  "plain c \<longleftrightarrow> is_lower_az c \<or> is_digit c \<or> c = 0x20"

fun single_spaced :: "jsstring \<Rightarrow> bool" where
  "single_spaced [] = True"
| "single_spaced [c] = True"
| "single_spaced (c # d # cs) = (\<not> (c = 0x20 \<and> d = 0x20) \<and> single_spaced (d # cs))"

lemma space_0x20 [simp]: "is_space 0x20"
  by (simp add: is_space_def)

lemma az_not_space: "is_lower_az c \<Longrightarrow> \<not> is_space c"
  unfolding is_lower_az_def is_space_def by auto

lemma digit_not_space: "is_digit c \<Longrightarrow> \<not> is_space c"
  unfolding is_digit_def is_space_def by auto

lemma plain_space_iff: "plain c \<Longrightarrow> is_space c \<longleftrightarrow> c = 0x20"
  unfolding plain_def using az_not_space digit_not_space by auto

lemma lower_unit_plain: "plain c \<Longrightarrow> lower_unit c = [c]"
  unfolding plain_def is_lower_az_def is_digit_def lower_unit_def
  by auto

lemma toLowerCase_plain: "\<forall>c\<in>set s. plain c \<Longrightarrow> toLowerCase s = s"
  by (induction s) (simp_all add: toLowerCase_def lower_unit_plain)


lemma collapse_plain_set:
  "\<forall>c\<in>set s. is_lower_az c \<or> is_digit c \<or> is_space c \<Longrightarrow> \<forall>c\<in>set (collapse_spaces s). plain c"
proof (induction s rule: collapse_spaces.induct)
  case 1
  then show ?case by simp
next
  case (2 c cs)
  show ?case
  proof (cases "is_space c")
    case True
    have "\<forall>c\<in>set (dropWhile is_space cs). is_lower_az c \<or> is_digit c \<or> is_space c"
      using "2.prems" by (auto dest: set_dropWhileD)
    with True "2.IH"(1) show ?thesis by (simp add: plain_def)
  next
    case False
    with "2.prems" "2.IH"(2) show ?thesis by (auto simp: plain_def)
  qed
qed

lemma collapse_hd_space:
  "collapse_spaces s = c # t \<Longrightarrow> c = 0x20 \<Longrightarrow> s \<noteq> [] \<and> is_space (hd s)"
  by (cases s) (auto split: if_splits)

lemma collapse_single_spaced: "single_spaced (collapse_spaces s)"
proof (induction s rule: collapse_spaces.induct)
  case 1
  then show ?case by simp
next
  case (2 c cs)
  show ?case
  proof (cases "is_space c")
    case True
    let ?r = "dropWhile is_space cs"
    have hd: "?r \<noteq> [] \<Longrightarrow> \<not> is_space (hd ?r)"
      by (simp add: hd_dropWhile)
    show ?thesis
    proof (cases "collapse_spaces ?r")
      case Nil
      with True show ?thesis by simp
    next
      case (Cons d t)
      with hd have "d \<noteq> 0x20" using collapse_hd_space [OF Cons] by auto
      with True Cons "2.IH"(1) show ?thesis by simp
    qed
  next
    case False
    then have "c \<noteq> 0x20" by auto
    with False "2.IH"(2) show ?thesis
      by (cases "collapse_spaces cs") simp_all
  qed
qed

lemma collapse_fixed:
  "\<forall>c\<in>set s. plain c \<Longrightarrow> single_spaced s \<Longrightarrow> collapse_spaces s = s"
proof (induction s rule: single_spaced.induct)
  case 1
  then show ?case by simp
next
  case (2 c)
  then show ?case by (simp add: plain_space_iff)
next
  case (3 c d cs)
  then have IH: "collapse_spaces (d # cs) = d # cs" by simp
  show ?case
  proof (cases "is_space c")
    case True
    with "3.prems" have "c = 0x20" by (simp add: plain_space_iff)
    with "3.prems" have "\<not> is_space d" by (simp add: plain_space_iff)
    with True \<open>c = 0x20\<close> IH show ?thesis by simp
  next
    case False
    with IH show ?thesis by simp
  qed
qed

lemma single_spaced_sublist: "single_spaced t \<longleftrightarrow> \<not> sublist [0x20, 0x20] t"
proof (induction t rule: single_spaced.induct)
  case 1
  then show ?case by simp
next
  case (2 c)
  then show ?case by (simp add: sublist_Cons_right)
next
  case (3 c d cs)
  then show ?case by (auto simp: sublist_Cons_right)
qed


lemma trim_sublist: "sublist (trim s) s"
proof -
  let ?u = "dropWhile is_space s"
  have "suffix ?u s" by (rule suffix_dropWhile)
  moreover have "suffix (dropWhile is_space (rev ?u)) (rev ?u)" by (rule suffix_dropWhile)
  then have "prefix (trim s) ?u"
    unfolding trim_def by (metis suffix_to_prefix rev_rev_ident)
  ultimately show ?thesis
    by (meson prefix_imp_sublist suffix_imp_sublist sublist_order.order_trans)
qed

lemma trim_set: "set (trim s) \<subseteq> set s"
  using trim_sublist [of s] by (rule set_mono_sublist)

lemma trim_single_spaced: "single_spaced s \<Longrightarrow> single_spaced (trim s)"
  unfolding single_spaced_sublist
  using trim_sublist [of s] by (meson sublist_order.order_trans)

lemma trim_id_iff:
  "trim t = t \<longleftrightarrow> t = [] \<or> (\<not> is_space (hd t) \<and> \<not> is_space (last t))"
proof (cases "t = []")
  case True
  then show ?thesis by (simp add: trim_def)
next
  case False
  show ?thesis
  proof (cases "is_space (hd t)")
    case True
    with False have "length (dropWhile is_space t) < length t"
      by (cases t) (auto simp: less_Suc_eq_le length_dropWhile_le)
    moreover have "length (trim t) \<le> length (dropWhile is_space t)"
      unfolding trim_def
      using length_dropWhile_le [of is_space "rev (dropWhile is_space t)"] by simp
    ultimately have "trim t \<noteq> t" by auto
    with True False show ?thesis by simp
  next
    case nohd: False
    with False have d: "dropWhile is_space t = t" by (cases t) auto
    show ?thesis
    proof (cases "is_space (last t)")
      case True
      with False have "length (dropWhile is_space (rev t)) < length (rev t)"
        by (cases "rev t") (auto simp: less_Suc_eq_le length_dropWhile_le last_rev hd_rev)
      then have "trim t \<noteq> t" unfolding trim_def d
        by (auto dest: arg_cong [where f = length])
      with True False show ?thesis by simp
    next
      case nolast: False
      with False have "dropWhile is_space (rev t) = rev t"
        by (cases "rev t") (auto simp: hd_rev)
      with d nohd nolast False show ?thesis by (simp add: trim_def)
    qed
  qed
qed

lemma normalizeString_plain: "\<forall>c\<in>set (normalizeString s). plain c"
  unfolding normalizeString_def
  by (rule collapse_plain_set) (simp add: strip_other_def)

lemma normalizeString_single_spaced: "single_spaced (normalizeString s)"
  unfolding normalizeString_def by (rule collapse_single_spaced)

lemma normalizeString_of_normal:
  assumes "\<forall>c\<in>set t. plain c" and "single_spaced t"
  shows "normalizeString t = trim t"
proof -
  have l: "toLowerCase t = t" using assms(1) by (rule toLowerCase_plain)
  have p: "\<forall>c\<in>set (trim t). plain c" using assms(1) trim_set [of t] by auto
  then have "strip_other (trim t) = trim t"
    unfolding strip_other_def by (intro filter_True) (auto simp: plain_def)
  moreover have "collapse_spaces (trim t) = trim t"
    using p assms(2) by (intro collapse_fixed trim_single_spaced)
  ultimately show ?thesis by (simp add: normalizeString_def l)
qed

section \<open>Edit distance: the recurrence computes the least number of edits\<close>

lemma lev_Nil2 [simp]: "lev xs [] = length xs"
  by (cases xs) simp_all

lemma lev_refl [simp]: "lev xs xs = 0"
  by (induction xs) simp_all

lemma lev_sym: "lev xs ys = lev ys xs"
  by (induction xs ys rule: lev.induct) (simp_all add: min.commute min.left_commute eq_commute)

lemma lev_del_hd: "lev (x # xs) ys \<le> lev xs ys + 1"
  by (cases ys) simp_all

lemma lev_ins_hd: "lev xs (y # ys) \<le> lev xs ys + 1"
  by (cases xs) simp_all

lemma lev_drop_hd: "lev xs ys \<le> lev xs (y # ys) + 1"
proof (induction xs)
  case Nil
  then show ?case by simp
next
  case (Cons x xs)
  have "lev (x # xs) ys \<le> lev xs ys + 1" by (rule lev_del_hd)
  with Cons show ?case by (simp add: min_def)
qed

lemma lev_sub_hd: "lev xs (y # ys) \<le> lev xs (z # ys) + 1"
proof (induction xs)
  case Nil
  then show ?case by simp
next
  case (Cons x xs)
  then show ?case by (simp add: min_def)
qed

lemma lev_context:
  assumes "\<And>xs. lev xs w \<le> lev xs w' + 1"
  shows "lev xs (q # w) \<le> lev xs (q # w') + 1"
proof (induction xs)
  case Nil
  from assms [of "[]"] show ?case by simp
next
  case (Cons x xs)
  from assms [of xs] assms [of "x # xs"] Cons show ?case
    by (simp add: min_def)
qed

lemma lev_prefix_context:
  assumes "\<And>xs. lev xs w \<le> lev xs w' + 1"
  shows "lev xs (u @ w) \<le> lev xs (u @ w') + 1"
proof (induction u arbitrary: xs)
  case Nil
  show ?case using assms by simp
next
  case (Cons q u)
  show ?case using lev_context [of "u @ w" "u @ w'" xs q] Cons by simp
qed

lemma lev_edit1: "edit1 b c \<Longrightarrow> lev a c \<le> lev a b + 1"
proof (induction rule: edit1.induct)
  case (ins u v x)
  show ?case by (rule lev_prefix_context) (rule lev_ins_hd)
next
  case (del u x v)
  show ?case by (rule lev_prefix_context) (rule lev_drop_hd)
next
  case (sub u x v y)
  show ?case by (rule lev_prefix_context) (rule lev_sub_hd)
qed

lemma lev_le_edits: "edits n a b \<Longrightarrow> lev a b \<le> n"
proof (induction rule: edits.induct)
  case (none a)
  then show ?case by simp
next
  case (step n a b c)
  with lev_edit1 [of b c a] show ?case by simp
qed

lemma edit1_Cons: "edit1 b c \<Longrightarrow> edit1 (x # b) (x # c)"
proof (induction rule: edit1.induct)
  case (ins u v y)
  show ?case using edit1.ins [of "x # u" v y] by simp
next
  case (del u y v)
  show ?case using edit1.del [of "x # u" y v] by simp
next
  case (sub u y v z)
  show ?case using edit1.sub [of "x # u" y v z] by simp
qed

lemma edits_Cons: "edits n a b \<Longrightarrow> edits n (x # a) (x # b)"
  by (induction rule: edits.induct) (auto intro: edits.intros edit1_Cons)

lemma edits_first: "edits n b c \<Longrightarrow> edit1 a b \<Longrightarrow> edits (Suc n) a c"
proof (induction rule: edits.induct)
  case (none b)
  then show ?case by (auto intro: edits.intros)
next
  case (step n b c d)
  then show ?case by (auto intro: edits.intros)
qed

lemma edit1_ins_hd: "edit1 v (x # v)"
  using edit1.ins [of "[]" v x] by simp

lemma edit1_del_hd: "edit1 (x # v) v"
  using edit1.del [of "[]" x v] by simp

lemma edit1_sub_hd: "edit1 (x # v) (y # v)"
  using edit1.sub [of "[]" x v y] by simp

lemma edits_from_Nil: "edits (length ys) [] ys"
  by (induction ys) (auto intro: edits.intros edit1_ins_hd)

lemma edits_to_Nil: "edits (length xs) xs []"
  by (induction xs) (auto intro: edits.none edits_first edit1_del_hd)

lemma edits_lev: "edits (lev a b) a b"
proof (induction a b rule: lev.induct)
  case (1 ys)
  show ?case using edits_from_Nil [of ys] by simp
next
  case (2 x xs)
  show ?case using edits_to_Nil [of "x # xs"] by simp
next
  case (3 x xs y ys)
  let ?A = "lev xs (y # ys)" and ?B = "lev (x # xs) ys" and ?C = "lev xs ys"
  let ?c = "if x = y then 0 else 1 :: nat"
  have a: "edits (?A + 1) (x # xs) (y # ys)"
    using edits_first [OF "3.IH"(1) edit1_del_hd] by simp
  have b: "edits (?B + 1) (x # xs) (y # ys)"
    using edits.step [OF "3.IH"(2) edit1_ins_hd] by simp
  have c: "edits (?C + ?c) (x # xs) (y # ys)"
  proof (cases "x = y")
    case True
    with edits_Cons [OF "3.IH"(3), of x] show ?thesis by simp
  next
    case False
    with edits_first [OF edits_Cons [OF "3.IH"(3), of y] edit1_sub_hd [of x xs y]]
    show ?thesis by simp
  qed
  have "lev (x # xs) (y # ys) = ?A + 1 \<or> lev (x # xs) (y # ys) = ?B + 1
        \<or> lev (x # xs) (y # ys) = ?C + ?c"
    by (simp add: min_def)
  with a b c show ?case by metis
qed

lemma edit_distance_lev: "edit_distance a b = lev a b"
  unfolding edit_distance_def
  by (rule Least_equality) (auto intro: edits_lev lev_le_edits)

lemma edit1_rev: "edit1 b c \<Longrightarrow> edit1 (rev b) (rev c)"
  by (induction rule: edit1.induct) (auto intro: edit1.intros)

lemma edits_rev: "edits n a b \<Longrightarrow> edits n (rev a) (rev b)"
  by (induction rule: edits.induct) (auto intro: edits.intros edit1_rev)

lemma edits_rev_iff: "edits n (rev a) (rev b) \<longleftrightarrow> edits n a b"
  using edits_rev [of n a b] edits_rev [of n "rev a" "rev b"] by auto

lemma lev_rev: "lev (rev a) (rev b) = lev a b"
  unfolding edit_distance_lev [symmetric] edit_distance_def edits_rev_iff ..

lemma lev_le_max: "lev a b \<le> max (length a) (length b)"
  by (induction a b rule: lev.induct) (auto simp: min_def max_def)

lemma lev_snoc:
  "lev (xs @ [x]) (ys @ [y]) =
     min (min (lev xs (ys @ [y]) + 1) (lev (xs @ [x]) ys + 1))
         (lev xs ys + (if x = y then 0 else 1))"
proof -
  have "lev (xs @ [x]) (ys @ [y]) = lev (x # rev xs) (y # rev ys)"
    using lev_rev [of "xs @ [x]" "ys @ [y]"] by simp
  moreover have "lev (rev xs) (y # rev ys) = lev xs (ys @ [y])"
    using lev_rev [of xs "ys @ [y]"] by simp
  moreover have "lev (x # rev xs) (rev ys) = lev (xs @ [x]) ys"
    using lev_rev [of "xs @ [x]" ys] by simp
  ultimately show ?thesis by (simp add: lev_rev)
qed

lemma lev_ge_length_diff: "length a - length b \<le> lev a b"
  by (induction a b rule: lev.induct) auto

lemma lev_append_le: "lev (u @ v) u \<le> length v"
  by (induction u) (simp_all add: min.coboundedI2)

lemma lev_append: "lev (u @ v) u = length v"
  using lev_ge_length_diff [of "u @ v" u] lev_append_le [of u v] by simp

text \<open>
  Two bounds for concrete strings: a common suffix can be kept, and every edit changes
  the number of occurrences of a character by at most one.
\<close>

lemma lev_common_prefix: "lev (w @ u) (w @ v) \<le> lev u v"
  by (induction w) (simp_all add: min.coboundedI2)

lemma lev_common_suffix: "lev (u @ w) (v @ w) \<le> lev u v"
  using lev_common_prefix [of "rev w" "rev u" "rev v"] lev_rev [of "u @ w" "v @ w"]
  by (simp add: lev_rev)

lemma lev_replicate_le: "lev (replicate n x) (replicate n y) \<le> n"
  by (induction n) (simp_all add: min.coboundedI2)

lemma edit1_count: "edit1 b c \<Longrightarrow> count_list c x \<le> count_list b x + 1"
  by (induction rule: edit1.induct) auto

lemma edits_count: "edits n a b \<Longrightarrow> count_list b x \<le> count_list a x + n"
proof (induction rule: edits.induct)
  case (none a)
  then show ?case by simp
next
  case (step n a b c)
  with edit1_count [of b c x] show ?case by simp
qed

lemma lev_ge_count: "count_list b x - count_list a x \<le> lev a b"
  using edits_count [OF edits_lev, of b x a] by simp

lemma count_replicate: "count_list (replicate n x) y = (if x = y then n else 0)"
  by (induction n) auto

section \<open>Double-precision arithmetic: rounding stays within integer bounds\<close>

lemma rne_cases: "rne x = \<lfloor>x\<rfloor> \<or> rne x = \<lfloor>x\<rfloor> + 1"
  by (simp add: rne_def Let_def)

lemma rne_of_int [simp]: "rne (of_int n) = n"
  by (simp add: rne_def Let_def)

lemma rne_nonneg: "0 \<le> x \<Longrightarrow> 0 \<le> rne x"
  using rne_cases [of x] by (auto simp: zero_le_floor)

lemma rne_le: "x \<le> of_int n \<Longrightarrow> rne x \<le> n"
proof (cases "x = of_int n")
  case True
  then show ?thesis by simp
next
  case False
  assume "x \<le> of_int n"
  with False have "x < of_int n" by simp
  then have "\<lfloor>x\<rfloor> < n" by (simp add: floor_less_iff)
  with rne_cases [of x] show ?thesis by auto
qed

lemma halvings_le: "1 \<le> q \<Longrightarrow> 2 ^ halvings q \<le> q"
proof (induction q rule: halvings.induct)
  case (1 q)
  show ?case
  proof (cases "q < 2")
    case True
    with "1.prems" show ?thesis by (simp add: halvings.simps)
  next
    case False
    then have "1 \<le> q / 2" by simp
    with "1.IH" False have "2 ^ halvings (q / 2) \<le> q / 2" by simp
    with False show ?thesis by (simp add: halvings.simps [of q])
  qed
qed

lemma exponent_le_52: "q < 2 ^ 53 \<Longrightarrow> exponent q \<le> 52"
proof (cases "1 \<le> q")
  case True
  assume "q < 2 ^ 53"
  with halvings_le [OF True] have "(2::real) ^ halvings q < 2 ^ 53" by simp
  then have "halvings q < 53"
    using power_less_imp_less_exp [of "2::real" "halvings q" 53] by simp
  with True show ?thesis by (simp add: exponent_def)
next
  case False
  then show ?thesis by (simp add: exponent_def)
qed

lemma fl_bounds:
  assumes "0 \<le> q" and "q \<le> of_int B" and "B < 2 ^ 53"
  shows "0 \<le> fl q \<and> fl q \<le> of_int B"
proof (cases "q = 0")
  case True
  with assms show ?thesis by (simp add: fl_def)
next
  case False
  with assms have pos: "0 < q" by simp
  define k where "k = 52 - max (exponent \<bar>q\<bar>) (- 1022)"
  define n where "n = nat k"
  from assms(3) have "(of_int B :: real) < of_int (2 ^ 53)"
    by (simp only: of_int_less_iff)
  with assms(2) have "q < 2 ^ 53" by simp
  with pos have "exponent \<bar>q\<bar> \<le> 52" by (simp add: exponent_le_52)
  then have k: "0 \<le> k" by (simp add: k_def)
  then have p: "(2::real) powi k = 2 ^ n" and m: "(2::real) powi (- k) = 1 / 2 ^ n"
    by (simp_all add: n_def power_int_def power_int_minus field_simps)
  have f: "fl q = of_int (rne (q * 2 ^ n)) / 2 ^ n"
    using False by (simp add: fl_def k_def [symmetric] Let_def p m)
  have "0 \<le> rne (q * 2 ^ n)"
    using pos by (intro rne_nonneg) simp
  moreover have "rne (q * 2 ^ n) \<le> B * 2 ^ n"
    using assms(2) by (intro rne_le) simp
  then have "real_of_int (rne (q * 2 ^ n)) \<le> of_int (B * 2 ^ n)"
    by (simp only: of_int_le_iff)
  then have "real_of_int (rne (q * 2 ^ n)) \<le> of_int B * 2 ^ n"
    by simp
  ultimately show ?thesis
    unfolding f by (simp add: field_simps)
qed

lemma double_score_range:
  assumes "d \<le> L" and "0 < L"
  shows "0 \<le> double_score d L \<and> double_score d L \<le> 100"
proof -
  let ?x1 = "fl (real d / real L)"
  let ?x2 = "fl (1 - ?x1)"
  let ?x3 = "fl (?x2 * 100)"
  have "0 \<le> real d / real L" "real d / real L \<le> of_int 1"
    using assms by simp_all
  then have x1: "0 \<le> ?x1 \<and> ?x1 \<le> of_int 1"
    by (intro fl_bounds) simp_all
  then have "0 \<le> 1 - ?x1" "1 - ?x1 \<le> of_int 1" by simp_all
  then have x2: "0 \<le> ?x2 \<and> ?x2 \<le> of_int 1"
    by (intro fl_bounds) simp_all
  then have "0 \<le> ?x2 * 100" "?x2 * 100 \<le> of_int 100" by simp_all
  then have x3: "0 \<le> ?x3 \<and> ?x3 \<le> of_int 100"
    by (intro fl_bounds) simp_all
  then have "0 \<le> \<lfloor>?x3 + 1 / 2\<rfloor>" "\<lfloor>?x3 + 1 / 2\<rfloor> \<le> 100"
    by (simp_all add: zero_le_floor floor_le_iff)
  then show ?thesis by (simp add: double_score_def Math_round_def)
qed

lemma exact_score_range:
  assumes "d \<le> L" and "0 < L"
  shows "0 \<le> exact_score d L \<and> exact_score d L \<le> 100"
proof -
  define x where "x = real d / real L"
  have x: "0 \<le> x" "x \<le> 1"
    using assms by (simp_all add: x_def)
  from x(2) have "0 \<le> (1 - x) * 100" by simp
  moreover from x(1) have "(1 - x) * 100 \<le> 100" by simp
  ultimately show ?thesis
    unfolding exact_score_def Math_round_def x_def [symmetric]
    by (simp add: zero_le_floor floor_le_iff)
qed

section \<open>The matrix holds the edit distances of the prefixes\<close>

text \<open>
  A loop over a range is handled by an invariant \<open>P\<close>: it holds at the lower bound,
  and every iteration succeeds and carries it from \<open>i\<close> to \<open>Suc i\<close>.
\<close>

lemma for_range_rule:
  assumes "P lo s" and "lo \<le> hi"
    and "\<And>i s. lo \<le> i \<Longrightarrow> i < hi \<Longrightarrow> P i s \<Longrightarrow> \<exists>s'. body i s = Inr s' \<and> P (Suc i) s'"
  shows "\<exists>s'. for_each [lo..<hi] body s = Inr s' \<and> P hi s'"
  using assms
proof (induction "hi - lo" arbitrary: lo s)
  case 0
  then show ?case by simp
next
  case (Suc n)
  then have lt: "lo < hi" by simp
  with Suc.prems(3) [of lo s] Suc.prems(1) obtain s1
    where s1: "body lo s = Inr s1" "P (Suc lo) s1" by auto
  have "\<exists>s'. for_each [Suc lo..<hi] body s1 = Inr s' \<and> P hi s'"
  proof (rule Suc.hyps(1))
    show "n = hi - Suc lo" using Suc.hyps(2) by simp
    show "P (Suc lo) s1" by fact
    show "Suc lo \<le> hi" using lt by simp
    show "\<exists>s'. body i s = Inr s' \<and> P (Suc i) s'" if "Suc lo \<le> i" "i < hi" "P i s" for i s
      using that Suc.prems(3) [of i s] by simp
  qed
  with s1 lt show ?case by (simp add: upt_rec [of lo hi])
qed

text \<open>\<open>dims r c m\<close>: the matrix has \<open>r\<close> rows of \<open>c\<close> cells each.\<close>

definition dims :: "nat \<Rightarrow> nat \<Rightarrow> matrix \<Rightarrow> bool" where
  "dims r c m \<longleftrightarrow> length m = r \<and> (\<forall>i<r. length (m ! i) = c)"

lemma write_cell_ok:
  assumes "dims r c m" and "i < r" and "j < c"
  shows "\<exists>m'. write_cell m i j v = Inr m' \<and> dims r c m'
           \<and> (\<forall>i' j'. i' < r \<longrightarrow> j' < c \<longrightarrow>
                 m' ! i' ! j' = (if i' = i \<and> j' = j then Num v else m ! i' ! j'))"
  using assms
  by (auto simp: write_cell_def dims_def set_index_def nth_list_update)

lemma read_cell_ok:
  assumes "dims r c m" and "i < r" and "j < c" and "m ! i ! j = Num v"
  shows "read_cell m i j = Inr v"
  using assms by (simp add: read_cell_def dims_def)

text \<open>
  The value that cell \<open>(i, j)\<close> is meant to hold: the distance between the first \<open>i\<close>
  characters of \<open>a\<close> and the first \<open>j\<close> characters of \<open>b\<close>.
\<close>

definition prefix_distance :: "jsstring \<Rightarrow> jsstring \<Rightarrow> nat \<Rightarrow> nat \<Rightarrow> nat" where
  "prefix_distance a b i j = lev (take i a) (take j b)"

lemma prefix_distance_col0: "i \<le> length a \<Longrightarrow> prefix_distance a b i 0 = i"
  by (simp add: prefix_distance_def)

lemma prefix_distance_row0: "j \<le> length b \<Longrightarrow> prefix_distance a b 0 j = j"
  by (simp add: prefix_distance_def)

lemma prefix_distance_Suc:
  assumes "i < length a" and "j < length b"
  shows "prefix_distance a b (Suc i) (Suc j) =
           min (min (prefix_distance a b i (Suc j) + 1) (prefix_distance a b (Suc i) j + 1))
               (prefix_distance a b i j + (if a ! i = b ! j then 0 else 1))"
  using assms by (simp add: prefix_distance_def take_Suc_conv_app_nth lev_snoc)

lemma prefix_distance_full: "prefix_distance a b (length a) (length b) = lev a b"
  by (simp add: prefix_distance_def)

text \<open>
  The loop invariant when the inner loop is about to fill cell \<open>(i, j)\<close>: the matrix
  has its dimensions, column 0 is initialised, all rows above \<open>i\<close> are complete, and
  row \<open>i\<close> is complete to the left of \<open>j\<close>.
\<close>

definition filled :: "jsstring \<Rightarrow> jsstring \<Rightarrow> nat \<Rightarrow> nat \<Rightarrow> matrix \<Rightarrow> bool" where
  "filled a b i j m \<longleftrightarrow>
     dims (Suc (length a)) (Suc (length b)) m
     \<and> (\<forall>i'\<le>length a. m ! i' ! 0 = Num i')
     \<and> (\<forall>i' j'. i' < i \<longrightarrow> j' \<le> length b \<longrightarrow> m ! i' ! j' = Num (prefix_distance a b i' j'))
     \<and> (i \<le> length a \<longrightarrow> (\<forall>j'<j. m ! i ! j' = Num (prefix_distance a b i j')))"

lemma fill_cell_step:
  assumes f: "filled a b i j m" and i: "1 \<le> i" "i \<le> length a" and j: "1 \<le> j" "j \<le> length b"
  shows "\<exists>m'. fill_cell a b i j m = Inr m' \<and> filled a b i (Suc j) m'"
proof -
  define i0 j0 where "i0 = i - 1" and "j0 = j - 1"
  with i j have ij: "i = Suc i0" "j = Suc j0" by simp_all
  from f have d: "dims (Suc (length a)) (Suc (length b)) m"
    and col: "\<And>i'. i' \<le> length a \<Longrightarrow> m ! i' ! 0 = Num i'"
    and above: "\<And>i' j'. i' < i \<Longrightarrow> j' \<le> length b \<Longrightarrow> m ! i' ! j' = Num (prefix_distance a b i' j')"
    and row: "\<And>j'. j' < j \<Longrightarrow> m ! i ! j' = Num (prefix_distance a b i j')"
    using i by (auto simp: filled_def)
  have "i0 < i" "j0 < j" "i0 < length a" "j0 < length b"
    using i j ij by simp_all
  note lt = this
  have up: "read_cell m i0 j = Inr (prefix_distance a b i0 j)"
    by (rule read_cell_ok [OF d]) (use lt i j in \<open>simp_all add: above\<close>)
  have left: "read_cell m i j0 = Inr (prefix_distance a b i j0)"
    by (rule read_cell_ok [OF d]) (use lt i j in \<open>simp_all add: row\<close>)
  have diag: "read_cell m i0 j0 = Inr (prefix_distance a b i0 j0)"
    by (rule read_cell_ok [OF d]) (use lt i j in \<open>simp_all add: above\<close>)
  have cost: "(char_at a i0 = char_at b j0) = (a ! i0 = b ! j0)"
    using lt by (simp add: char_at_def)
  define v where "v = min (min (prefix_distance a b i0 j + 1) (prefix_distance a b i j0 + 1))
                            (prefix_distance a b i0 j0 + (if a ! i0 = b ! j0 then 0 else 1))"
  have v: "v = prefix_distance a b i j"
    using prefix_distance_Suc [OF lt(3) lt(4)] unfolding v_def ij by simp
  from write_cell_ok [OF d, of i j v] i j obtain m'
    where w: "write_cell m i j v = Inr m'"
      and d': "dims (Suc (length a)) (Suc (length b)) m'"
      and upd: "\<And>i' j'. i' \<le> length a \<Longrightarrow> j' \<le> length b \<Longrightarrow>
                 m' ! i' ! j' = (if i' = i \<and> j' = j then Num v else m ! i' ! j')"
    by (auto simp: less_Suc_eq_le)
  have run: "fill_cell a b i j m = Inr m'"
    unfolding fill_cell_def Let_def i0_def [symmetric] j0_def [symmetric] cost up left diag
    using w by (simp add: v_def)
  have "filled a b i (Suc j) m'"
    unfolding filled_def
  proof (intro conjI allI impI)
    show "dims (Suc (length a)) (Suc (length b)) m'" by fact
  next
    fix i' assume "i' \<le> length a"
    with j show "m' ! i' ! 0 = Num i'" by (simp add: upd col)
  next
    fix i' j' assume "i' < i" "j' \<le> length b"
    with i show "m' ! i' ! j' = Num (prefix_distance a b i' j')" by (simp add: upd above)
  next
    fix j' assume "j' < Suc j"
    with i j show "m' ! i ! j' = Num (prefix_distance a b i j')"
      by (cases "j' = j") (simp_all add: upd row v)
  qed
  with run show ?thesis by blast
qed

lemma fill_row:
  assumes f: "filled a b i 1 m" and i: "1 \<le> i" "i \<le> length a"
  shows "\<exists>m'. for_each [1..<Suc (length b)] (\<lambda>j m. fill_cell a b i j m) m = Inr m'
           \<and> filled a b (Suc i) 1 m'"
proof -
  have "\<exists>m'. for_each [1..<Suc (length b)] (\<lambda>j m. fill_cell a b i j m) m = Inr m'
           \<and> filled a b i (Suc (length b)) m'"
    by (rule for_range_rule [where P = "filled a b i"])
       (use f i in \<open>auto intro: fill_cell_step\<close>)
  then obtain m' where
    run: "for_each [1..<Suc (length b)] (\<lambda>j m. fill_cell a b i j m) m = Inr m'"
    and f': "filled a b i (Suc (length b)) m'" by blast
  from f' i have d': "dims (Suc (length a)) (Suc (length b)) m'"
    and col: "\<And>i'. i' \<le> length a \<Longrightarrow> m' ! i' ! 0 = Num i'"
    and above: "\<And>i' j'. i' < i \<Longrightarrow> j' \<le> length b \<Longrightarrow> m' ! i' ! j' = Num (prefix_distance a b i' j')"
    and row: "\<And>j'. j' \<le> length b \<Longrightarrow> m' ! i ! j' = Num (prefix_distance a b i j')"
    by (auto simp: filled_def less_Suc_eq_le)
  have "filled a b (Suc i) 1 m'"
    unfolding filled_def
  proof (intro conjI allI impI)
    show "dims (Suc (length a)) (Suc (length b)) m'" by fact
  next
    fix i' assume "i' \<le> length a"
    then show "m' ! i' ! 0 = Num i'" by (rule col)
  next
    fix i' j' assume "i' < Suc i" "j' \<le> length b"
    then show "m' ! i' ! j' = Num (prefix_distance a b i' j')"
      by (cases "i' = i") (simp_all add: above row)
  next
    fix j' :: nat assume "Suc i \<le> length a" "j' < 1"
    then show "m' ! Suc i ! j' = Num (prefix_distance a b (Suc i) j')"
      by (simp add: col prefix_distance_col0)
  qed
  with run show ?thesis by blast
qed


lemma init_column:
  assumes "dims (Suc n1) (Suc n2) m"
  shows "\<exists>m'. for_each [0..<Suc n1] (\<lambda>i m. write_cell m i 0 i) m = Inr m'
           \<and> dims (Suc n1) (Suc n2) m' \<and> (\<forall>i'\<le>n1. m' ! i' ! 0 = Num i')"
proof -
  let ?P = "\<lambda>i m. dims (Suc n1) (Suc n2) m \<and> (\<forall>i'<i. m ! i' ! 0 = Num i')"
  have "\<exists>m'. for_each [0..<Suc n1] (\<lambda>i m. write_cell m i 0 i) m = Inr m' \<and> ?P (Suc n1) m'"
  proof (rule for_range_rule [where P = ?P])
    show "?P 0 m" using assms by simp
    show "0 \<le> Suc n1" by simp
    fix i s assume i: "i < Suc n1" and P: "?P i s"
    from write_cell_ok [of "Suc n1" "Suc n2" s i 0 i] i P obtain s'
      where w: "write_cell s i 0 i = Inr s'" and d: "dims (Suc n1) (Suc n2) s'"
        and upd: "\<And>i'. i' < Suc n1 \<Longrightarrow> s' ! i' ! 0 = (if i' = i then Num i else s ! i' ! 0)"
      by auto
    have "s' ! i' ! 0 = Num i'" if "i' < Suc i" for i'
    proof -
      from that i have "i' < Suc n1" by simp
      with that P show ?thesis by (cases "i' = i") (simp_all add: upd)
    qed
    with w d show "\<exists>s'. write_cell s i 0 i = Inr s' \<and> ?P (Suc i) s'" by blast
  qed
  then show ?thesis by (auto simp: less_Suc_eq_le)
qed

lemma init_row:
  assumes "dims (Suc n1) (Suc n2) m" and "\<forall>i'\<le>n1. m ! i' ! 0 = Num i'"
  shows "\<exists>m'. for_each [0..<Suc n2] (\<lambda>j m. write_cell m 0 j j) m = Inr m'
           \<and> dims (Suc n1) (Suc n2) m' \<and> (\<forall>i'\<le>n1. m' ! i' ! 0 = Num i')
           \<and> (\<forall>j'\<le>n2. m' ! 0 ! j' = Num j')"
proof -
  let ?P = "\<lambda>j m. dims (Suc n1) (Suc n2) m \<and> (\<forall>i'\<le>n1. m ! i' ! 0 = Num i')
                   \<and> (\<forall>j'<j. m ! 0 ! j' = Num j')"
  have "\<exists>m'. for_each [0..<Suc n2] (\<lambda>j m. write_cell m 0 j j) m = Inr m' \<and> ?P (Suc n2) m'"
  proof (rule for_range_rule [where P = ?P])
    show "?P 0 m" using assms by simp
    show "0 \<le> Suc n2" by simp
    fix j s assume j: "j < Suc n2" and P: "?P j s"
    from write_cell_ok [of "Suc n1" "Suc n2" s 0 j j] j P obtain s'
      where w: "write_cell s 0 j j = Inr s'" and d: "dims (Suc n1) (Suc n2) s'"
        and upd: "\<And>i' j'. i' < Suc n1 \<Longrightarrow> j' < Suc n2 \<Longrightarrow>
                   s' ! i' ! j' = (if i' = 0 \<and> j' = j then Num j else s ! i' ! j')"
      by auto
    have "s' ! i' ! 0 = Num i'" if "i' \<le> n1" for i'
    proof -
      from that have "i' < Suc n1" "0 < Suc n2" by simp_all
      from upd [OF this] that P show ?thesis by (cases "i' = 0") auto
    qed
    moreover have "s' ! 0 ! j' = Num j'" if "j' < Suc j" for j'
    proof -
      from that j have "0 < Suc n1" "j' < Suc n2" by simp_all
      from upd [OF this] that P show ?thesis by (cases "j' = j") auto
    qed
    ultimately show "\<exists>s'. write_cell s 0 j j = Inr s' \<and> ?P (Suc j) s'"
      using w d by blast
  qed
  then show ?thesis by (auto simp: less_Suc_eq_le)
qed

lemma distance_matrix_ok:
  "\<exists>m. distance_matrix a b = Inr m \<and> dims (Suc (length a)) (Suc (length b)) m
       \<and> m ! length a ! length b = Num (lev a b)"
proof -
  let ?n1 = "length a" and ?n2 = "length b"
  let ?m0 = "replicate (?n1 + 1) (replicate (?n2 + 1) Null)"
  have "dims (Suc ?n1) (Suc ?n2) ?m0"
    unfolding dims_def by (simp del: replicate.simps)
  from init_column [OF this] obtain m1
    where r1: "for_each [0..<Suc ?n1] (\<lambda>i m. write_cell m i 0 i) ?m0 = Inr m1"
      and d1: "dims (Suc ?n1) (Suc ?n2) m1" and c1: "\<forall>i'\<le>?n1. m1 ! i' ! 0 = Num i'"
    by blast
  from init_row [OF d1 c1] obtain m2
    where r2: "for_each [0..<Suc ?n2] (\<lambda>j m. write_cell m 0 j j) m1 = Inr m2"
      and d2: "dims (Suc ?n1) (Suc ?n2) m2" and c2: "\<forall>i'\<le>?n1. m2 ! i' ! 0 = Num i'"
      and t2: "\<forall>j'\<le>?n2. m2 ! 0 ! j' = Num j'"
    by blast
  have start: "filled a b 1 1 m2"
    unfolding filled_def using d2 c2 t2 by (auto simp: prefix_distance_row0 prefix_distance_col0)
  let ?outer = "\<lambda>i m. for_each [1..<Suc ?n2] (\<lambda>j m. fill_cell a b i j m) m"
  have "\<exists>m3. for_each [1..<Suc ?n1] ?outer m2 = Inr m3 \<and> filled a b (Suc ?n1) 1 m3"
  proof (rule for_range_rule [where P = "\<lambda>i. filled a b i 1"])
    show "filled a b 1 1 m2" by fact
    show "1 \<le> Suc ?n1" by simp
    fix i s assume "1 \<le> i" "i < Suc ?n1" "filled a b i 1 s"
    then show "\<exists>s'. ?outer i s = Inr s' \<and> filled a b (Suc i) 1 s'"
      using fill_row [of a b i s] by simp
  qed
  then obtain m3 where r3: "for_each [1..<Suc ?n1] ?outer m2 = Inr m3"
    and f3: "filled a b (Suc ?n1) 1 m3" by blast
  from f3 have "dims (Suc ?n1) (Suc ?n2) m3" and "m3 ! ?n1 ! ?n2 = Num (prefix_distance a b ?n1 ?n2)"
    by (auto simp: filled_def)
  moreover have "distance_matrix a b = Inr m3"
    unfolding distance_matrix_def Let_def r1 sum.case r2 r3 ..
  ultimately show ?thesis by (simp add: prefix_distance_full)
qed

lemma matrix_distance:
  "\<exists>m. distance_matrix a b = Inr m \<and> read_cell m (length a) (length b) = Inr (lev a b)"
proof -
  from distance_matrix_ok [of a b] obtain m where m: "distance_matrix a b = Inr m"
    "dims (Suc (length a)) (Suc (length b)) m" "m ! length a ! length b = Num (lev a b)"
    by blast
  then have "read_cell m (length a) (length b) = Inr (lev a b)"
    by (intro read_cell_ok [OF m(2)]) simp_all
  with m(1) show ?thesis by blast
qed

lemma calculateSimilarity_lev:
  "calculateSimilarity a b =
     Inr (if a = [] \<and> b = [] then 100
          else if a = [] \<or> b = [] then 0
          else double_score (lev a b) (max (length a) (length b)))"
proof -
  from matrix_distance [of a b] obtain m where
    "distance_matrix a b = Inr m" "read_cell m (length a) (length b) = Inr (lev a b)"
    by blast
  then show ?thesis by (simp add: calculateSimilarity_def)
qed

lemma calculateSimilarity_eq: "calculateSimilarity a b = Inr (similarity a b)"
  by (simp add: calculateSimilarity_lev similarity_def edit_distance_lev)

lemma similarity_range: "0 \<le> similarity a b \<and> similarity a b \<le> 100"
proof -
  have "lev a b \<le> max (length a) (length b)" by (rule lev_le_max)
  moreover have "a \<noteq> [] \<Longrightarrow> 0 < max (length a) (length b)"
    by (simp add: less_max_iff_disj)
  ultimately show ?thesis
    using double_score_range [of "lev a b" "max (length a) (length b)"]
    by (auto simp: similarity_def edit_distance_lev)
qed

lemma similarity_sym: "similarity a b = similarity b a"
  by (auto simp: similarity_def edit_distance_lev lev_sym [of a b] max.commute)

section \<open>The classifier follows the ordered rules\<close>

lemma js_includes_sublist: "js_includes s t \<longleftrightarrow> sublist t s"
  by (induction s) (simp_all add: sublist_Cons_right)

lemma alternative_matches_iff:
  "alternative_matches alts t \<longleftrightarrow> (\<exists>alt \<in> set alts. normalizeString alt = t)"
  by (induction alts) auto

lemma calculateMatch_eq:
  "calculateMatch target spoken alternatives =
     Inr \<lparr>score = fst (classify target spoken alternatives),
          feedback = snd (classify target spoken alternatives),
          transcript = spoken\<rparr>"
proof (cases "normalizeString target = normalizeString spoken")
  case True
  then show ?thesis by (simp add: calculateMatch_def classify_def classify_with_def Let_def)
next
  case False
  then have "normalizeString spoken \<noteq> normalizeString target" by auto
  with False show ?thesis
    by (simp add: calculateMatch_def classify_def classify_with_def Let_def calculateSimilarity_eq
        js_includes_sublist alternative_matches_iff)
qed

lemma classify_consistent:
  "case snd (classify t s alts) of
     Perfect \<Rightarrow> fst (classify t s alts) = 100
   | Excellent \<Rightarrow> fst (classify t s alts) = 95
   | Good \<Rightarrow> 80 \<le> fst (classify t s alts)
   | Close \<Rightarrow> 60 \<le> fst (classify t s alts) \<and> fst (classify t s alts) \<le> 79
   | Partial \<Rightarrow> 70 \<le> fst (classify t s alts)
   | TryAgain \<Rightarrow> 40 \<le> fst (classify t s alts) \<and> fst (classify t s alts) \<le> 59
   | Different \<Rightarrow> 0 \<le> fst (classify t s alts) \<and> fst (classify t s alts) \<le> 39"
  using similarity_range [of "normalizeString t" "normalizeString s"]
  by (auto simp: classify_def classify_with_def Let_def le_max_iff_disj)

lemma classify_range: "0 \<le> fst (classify t s alts) \<and> fst (classify t s alts) \<le> 100"
  using similarity_range [of "normalizeString t" "normalizeString s"]
  by (auto simp: classify_def classify_with_def Let_def le_max_iff_disj)

text \<open>Evaluation of the definitions on concrete strings.\<close>

lemmas norm_eval = normalizeString_def js_def toLowerCase_def lower_unit_def trim_def
  strip_other_def is_space_def is_lower_az_def is_digit_def

lemmas score_eval = double_score_def exact_score_def Math_round_def fl_def exponent_def
  rne_def Let_def halvings.simps doublings.simps

section \<open>Concrete attempts\<close>

text \<open>
  The source functions evaluated on concrete strings: normalization by rewriting with
  the definitions, the matrix of \<open>calculateSimilarity\<close> by its code equations.
\<close>

lemma norm_good_morning: "normalizeString (js ''good morning'') = js ''good morning''"
  by (simp add: norm_eval)

lemma norm_good_afternoon: "normalizeString (js ''good afternoon'') = js ''good afternoon''"
  by (simp add: norm_eval)

lemma sim_good_afternoon:
  "calculateSimilarity (js ''good morning'') (js ''good afternoon'') = Inr 50"
  by code_simp

lemma lev_good_afternoon: "lev (js ''good morning'') (js ''good afternoon'') = 7"
proof -
  let ?a = "js ''good morning''" and ?b = "js ''good afternoon''"
  from matrix_distance [of ?a ?b] obtain m where
    "distance_matrix ?a ?b = Inr m" "read_cell m (length ?a) (length ?b) = Inr (lev ?a ?b)"
    by blast
  moreover have "(case distance_matrix ?a ?b of Inl e \<Rightarrow> Inl e
                  | Inr m \<Rightarrow> read_cell m (length ?a) (length ?b)) = Inr 7"
    by code_simp
  ultimately show ?thesis by simp
qed

lemma match_good_afternoon:
  "calculateMatch (js ''good morning'') (js ''good afternoon'') []
     = Inr \<lparr>score = 50, feedback = TryAgain, transcript = js ''good afternoon''\<rparr>"
  unfolding calculateMatch_def Let_def norm_good_morning norm_good_afternoon sim_good_afternoon
  by (simp add: js_def)

lemma norm_gday: "normalizeString (js ''G'day, Mate!'') = js ''gday mate''"
  by (simp add: norm_eval)

lemma norm_gday_mate: "normalizeString (js ''gday  mate'') = js ''gday mate''"
  by (simp add: norm_eval)

lemma match_gday:
  "calculateMatch (js ''G'day, Mate!'') (js ''gday  mate'') []
     = Inr \<lparr>score = 100, feedback = Perfect, transcript = js ''gday  mate''\<rparr>"
  unfolding calculateMatch_def Let_def norm_gday norm_gday_mate by simp

lemma norm_arvo: "normalizeString (js ''arvo'') = js ''arvo''"
  by (simp add: norm_eval)

lemma norm_this_arvo: "normalizeString (js ''this arvo'') = js ''this arvo''"
  by (simp add: norm_eval)

lemma sim_this_arvo: "calculateSimilarity (js ''arvo'') (js ''this arvo'') = Inr 44"
  by code_simp

lemma match_this_arvo:
  "calculateMatch (js ''arvo'') (js ''this arvo'') []
     = Inr \<lparr>score = 85, feedback = Good, transcript = js ''this arvo''\<rparr>"
  unfolding calculateMatch_def Let_def norm_arvo norm_this_arvo sim_this_arvo
  by (simp add: js_def)

lemma match_this_arvo_alternative:
  "calculateMatch (js ''arvo'') (js ''this arvo'') [js ''this arvo'', js ''arvo'']
     = Inr \<lparr>score = 95, feedback = Excellent, transcript = js ''this arvo''\<rparr>"
  unfolding calculateMatch_def Let_def norm_arvo norm_this_arvo
  by (simp add: norm_arvo norm_this_arvo) (simp add: js_def)

lemma norm_no_worries: "normalizeString (js ''no worries'') = js ''no worries''"
  by (simp add: norm_eval)

lemma norm_worries: "normalizeString (js ''worries'') = js ''worries''"
  by (simp add: norm_eval)

lemma sim_worries: "calculateSimilarity (js ''no worries'') (js ''worries'') = Inr 70"
  by code_simp

lemma match_worries:
  "calculateMatch (js ''no worries'') (js ''worries'') []
     = Inr \<lparr>score = 70, feedback = Partial, transcript = js ''worries''\<rparr>"
  unfolding calculateMatch_def Let_def norm_no_worries norm_worries sim_worries
  by (simp add: js_def)

lemma norm_hello: "normalizeString (js ''hello'') = js ''hello''"
  by (simp add: norm_eval)

lemma norm_help: "normalizeString (js ''help'') = js ''help''"
  by (simp add: norm_eval)

lemma sim_help: "calculateSimilarity (js ''hello'') (js ''help'') = Inr 60"
  by code_simp

lemma match_help:
  "calculateMatch (js ''hello'') (js ''help'') []
     = Inr \<lparr>score = 60, feedback = Close, transcript = js ''help''\<rparr>"
  unfolding calculateMatch_def Let_def norm_hello norm_help sim_help
  by (simp add: js_def)

lemma norm_cat: "normalizeString (js ''cat'') = js ''cat''"
  by (simp add: norm_eval)

lemma norm_dog: "normalizeString (js ''dog'') = js ''dog''"
  by (simp add: norm_eval)

lemma sim_dog: "calculateSimilarity (js ''cat'') (js ''dog'') = Inr 0"
  by code_simp

lemma match_dog:
  "calculateMatch (js ''cat'') (js ''dog'') []
     = Inr \<lparr>score = 0, feedback = Different, transcript = js ''dog''\<rparr>"
  unfolding calculateMatch_def Let_def norm_cat norm_dog sim_dog
  by (simp add: js_def)

lemma norm_hallo: "normalizeString (js ''hallo'') = js ''hallo''"
  by (simp add: norm_eval)

lemma sim_hallo: "calculateSimilarity (js ''hello'') (js ''hallo'') = Inr 80"
  by code_simp

lemma match_hallo:
  "calculateMatch (js ''hello'') (js ''hallo'') []
     = Inr \<lparr>score = 80, feedback = Good, transcript = js ''hallo''\<rparr>"
  unfolding calculateMatch_def Let_def norm_hello norm_hallo sim_hallo
  by (simp add: js_def)

lemma norm_no_worrie: "normalizeString (js ''no worrie'') = js ''no worrie''"
  by (simp add: norm_eval)

lemma sim_no_worrie: "calculateSimilarity (js ''no worries'') (js ''no worrie'') = Inr 90"
  by code_simp

lemma match_no_worrie:
  "calculateMatch (js ''no worries'') (js ''no worrie'') []
     = Inr \<lparr>score = 90, feedback = Partial, transcript = js ''no worrie''\<rparr>"
  unfolding calculateMatch_def Let_def norm_no_worries norm_no_worrie sim_no_worrie
  by (simp add: js_def)

lemma norm_gday_plain: "normalizeString (js ''gday mate'') = js ''gday mate''"
  by (simp add: norm_eval)

lemma norm_gday_mates: "normalizeString (js ''gday mates'') = js ''gday mates''"
  by (simp add: norm_eval)

lemma sim_gday_mates: "calculateSimilarity (js ''gday mate'') (js ''gday mates'') = Inr 90"
  by code_simp

lemma match_gday_mates:
  "calculateMatch (js ''gday mate'') (js ''gday mates'') []
     = Inr \<lparr>score = 90, feedback = Good, transcript = js ''gday mates''\<rparr>"
  unfolding calculateMatch_def Let_def norm_gday_plain norm_gday_mates sim_gday_mates
  by (simp add: js_def)

text \<open>
  Forty \<^verbatim>\<open>a\<close> against seventeen \<^verbatim>\<open>b\<close> followed by twenty-three \<^verbatim>\<open>a\<close>: the distance
  is 17 (seventeen substitutions; no fewer, since each edit adds at most one \<^verbatim>\<open>b\<close>).
\<close>

lemma forty_a: "js ''aaaaaaaaaaaaaaaaaaaaaaaaaaaaaaaaaaaaaaaa'' = replicate 17 97 @ replicate 23 97"
  by (simp add: js_def eval_nat_numeral)

lemma b_then_a: "js ''bbbbbbbbbbbbbbbbbaaaaaaaaaaaaaaaaaaaaaaa'' = replicate 17 98 @ replicate 23 97"
  by (simp add: js_def eval_nat_numeral)

lemma lev_forty_b:
  "lev (js ''aaaaaaaaaaaaaaaaaaaaaaaaaaaaaaaaaaaaaaaa'')
       (js ''bbbbbbbbbbbbbbbbbaaaaaaaaaaaaaaaaaaaaaaa'') = 17"
proof -
  let ?a = "replicate 17 (97::nat) @ replicate 23 97"
  let ?b = "replicate 17 (98::nat) @ replicate 23 97"
  have "lev ?a ?b \<le> lev (replicate 17 (97::nat)) (replicate 17 98)"
    by (rule lev_common_suffix)
  also have "\<dots> \<le> 17" by (rule lev_replicate_le)
  finally have "lev ?a ?b \<le> 17" .
  moreover have "count_list ?b 98 - count_list ?a 98 \<le> lev ?a ?b"
    by (rule lev_ge_count)
  then have "17 \<le> lev ?a ?b" by (simp add: count_replicate)
  ultimately show ?thesis unfolding forty_a b_then_a by simp
qed

lemma norm_forty_a:
  "normalizeString (js ''aaaaaaaaaaaaaaaaaaaaaaaaaaaaaaaaaaaaaaaa'')
     = js ''aaaaaaaaaaaaaaaaaaaaaaaaaaaaaaaaaaaaaaaa''"
  by (simp add: norm_eval)

lemma norm_b_then_a:
  "normalizeString (js ''bbbbbbbbbbbbbbbbbaaaaaaaaaaaaaaaaaaaaaaa'')
     = js ''bbbbbbbbbbbbbbbbbaaaaaaaaaaaaaaaaaaaaaaa''"
  by (simp add: norm_eval)

lemma scores_17_40: "double_score 17 40 = 57 \<and> exact_score 17 40 = 58"
  by (simp add: score_eval)


lemma length_forty:
  "length (js ''aaaaaaaaaaaaaaaaaaaaaaaaaaaaaaaaaaaaaaaa'') = 40"
  "length (js ''bbbbbbbbbbbbbbbbbaaaaaaaaaaaaaaaaaaaaaaa'') = 40"
  by (simp_all add: js_def)

lemma sim_forty_b:
  "calculateSimilarity (js ''aaaaaaaaaaaaaaaaaaaaaaaaaaaaaaaaaaaaaaaa'')
       (js ''bbbbbbbbbbbbbbbbbaaaaaaaaaaaaaaaaaaaaaaa'') = Inr 57"
proof -
  have "js ''aaaaaaaaaaaaaaaaaaaaaaaaaaaaaaaaaaaaaaaa'' \<noteq> []"
    "js ''bbbbbbbbbbbbbbbbbaaaaaaaaaaaaaaaaaaaaaaa'' \<noteq> []"
    by (simp_all add: js_def)
  then show ?thesis
    using scores_17_40 by (simp add: calculateSimilarity_lev lev_forty_b length_forty)
qed

lemma exact_forty_b:
  "exact_similarity (js ''aaaaaaaaaaaaaaaaaaaaaaaaaaaaaaaaaaaaaaaa'')
       (js ''bbbbbbbbbbbbbbbbbaaaaaaaaaaaaaaaaaaaaaaa'') = 58"
proof -
  have "js ''aaaaaaaaaaaaaaaaaaaaaaaaaaaaaaaaaaaaaaaa'' \<noteq> []"
    "js ''bbbbbbbbbbbbbbbbbaaaaaaaaaaaaaaaaaaaaaaa'' \<noteq> []"
    by (simp_all add: js_def)
  then show ?thesis
    using scores_17_40
    by (simp add: exact_similarity_def edit_distance_lev lev_forty_b length_forty)
qed

lemma match_forty_b:
  "calculateMatch (js ''aaaaaaaaaaaaaaaaaaaaaaaaaaaaaaaaaaaaaaaa'')
       (js ''bbbbbbbbbbbbbbbbbaaaaaaaaaaaaaaaaaaaaaaa'') []
     = Inr \<lparr>score = 57, feedback = TryAgain,
            transcript = js ''bbbbbbbbbbbbbbbbbaaaaaaaaaaaaaaaaaaaaaaa''\<rparr>"
  unfolding calculateMatch_def Let_def norm_forty_a norm_b_then_a sim_forty_b
  by (simp add: js_def)

lemma spec_forty_b:
  "classify_spec (js ''aaaaaaaaaaaaaaaaaaaaaaaaaaaaaaaaaaaaaaaa'')
       (js ''bbbbbbbbbbbbbbbbbaaaaaaaaaaaaaaaaaaaaaaa'') [] = (58, TryAgain)"
  unfolding classify_spec_def classify_with_def Let_def norm_forty_a norm_b_then_a exact_forty_b
    js_includes_sublist [symmetric]
  by (simp add: js_def)

lemma sim_sitting: "calculateSimilarity (js ''kitten'') (js ''sitting'') = Inr 57"
  by code_simp

lemma lev_forty_three: "lev (replicate 40 (97::nat)) (replicate 3 97) = 37"
  using lev_append [of "replicate 3 (97::nat)" "replicate 37 97"]
  by (simp add: replicate_add [symmetric] del: replicate.simps)

lemma scores_37_40: "double_score 37 40 = 7 \<and> exact_score 37 40 = 8"
  by (simp add: score_eval)

section \<open>The claims about normalization\<close>

text \<open>
  Claim C2, as written: normalization is idempotent. It is not: \<^verbatim>\<open>trim()\<close> runs before
  the punctuation is deleted, so white space in front of trailing punctuation survives
  the first pass and is trimmed by the second. For the input \<^verbatim>\<open>a !\<close> the first pass
  returns \<^verbatim>\<open>a\<close> followed by a space, the second pass returns \<^verbatim>\<open>a\<close>.
\<close>

theorem normalizeString_not_idempotent:
  "normalizeString (normalizeString (js ''a !'')) \<noteq> normalizeString (js ''a !'')"
  by (simp add: norm_eval)

text \<open>
  Claim C2, amended. A second normalization does nothing but trim: it returns the first
  result without its leading and trailing space. So \<open>normalizeString\<close> is idempotent
  at \<open>s\<close> exactly when the first result is empty or neither begins nor ends with a
  space.
\<close>

theorem normalizeString_twice:
  "normalizeString (normalizeString s) = trim (normalizeString s)
   \<and> ((normalizeString (normalizeString s) = normalizeString s)
        = (normalizeString s = []
           \<or> (hd (normalizeString s) \<noteq> 0x20 \<and> last (normalizeString s) \<noteq> 0x20)))"
proof -
  let ?t = "normalizeString s"
  have eq: "normalizeString ?t = trim ?t"
    by (rule normalizeString_of_normal [OF normalizeString_plain normalizeString_single_spaced])
  have "?t \<noteq> [] \<Longrightarrow> is_space (hd ?t) \<longleftrightarrow> hd ?t = 0x20"
    using normalizeString_plain [of s] by (intro plain_space_iff) simp
  moreover have "?t \<noteq> [] \<Longrightarrow> is_space (last ?t) \<longleftrightarrow> last ?t = 0x20"
    using normalizeString_plain [of s] by (intro plain_space_iff) simp
  ultimately show ?thesis
    unfolding eq trim_id_iff by auto
qed

theorem normalizeString_twice_witness:
  "normalizeString (normalizeString (js ''G'day, Mate!'')) = normalizeString (js ''G'day, Mate!'')
   \<and> normalizeString (js ''G'day, Mate!'') = js ''gday mate''
   \<and> normalizeString (normalizeString (js ''a !'')) = js ''a''
   \<and> normalizeString (js ''a !'') = js ''a ''"
  using normalizeString_twice [of "js ''G'day, Mate!''"] normalizeString_twice [of "js ''a !''"]
  by (simp add: norm_eval)

text \<open>
  Claim C10. Every character of a normalized string is a lower-case ASCII letter, a
  decimal digit or the space U+0020 (so no tab, newline or other white space is left),
  and the string does not contain two adjacent spaces.
\<close>

theorem normalizeString_output:
  "(\<forall>c\<in>set (normalizeString s). is_lower_az c \<or> is_digit c \<or> c = 0x20)
   \<and> \<not> sublist [0x20, 0x20] (normalizeString s)"
  using normalizeString_plain [of s] normalizeString_single_spaced [of s]
  by (simp add: plain_def single_spaced_sublist)

theorem normalizeString_output_witness:
  "normalizeString (js [CHR ''A'', CHR 0x09, CHR 0x0A, CHR '' '', CHR ''b'', CHR ''?'', CHR ''7''])
     = js ''a b7''
   \<and> \<not> sublist [0x20, 0x20] (js ''a b7'')"
  using normalizeString_output
    [of "js [CHR ''A'', CHR 0x09, CHR 0x0A, CHR '' '', CHR ''b'', CHR ''?'', CHR ''7'']"]
  by (simp add: norm_eval)

section \<open>The claims about the similarity score\<close>

text \<open>
  Claim C3, as written: for non-empty strings the result is
  \<open>round ((1 - d / L) * 100)\<close>. In exact arithmetic this fails for a string of forty
  \<^verbatim>\<open>a\<close> against \<^verbatim>\<open>aaa\<close>: the distance is 37 and \<open>(1 - 37 / 40) * 100 = 7.5\<close> rounds
  to 8, but the source computes in doubles, where \<open>37 / 40\<close> is rounded up,
  \<open>1 - 37 / 40\<close> comes out below \<open>0.075\<close>, the product is \<open>7.499999999999996\<close>, and
  \<^verbatim>\<open>Math.round\<close> returns 7.
\<close>

theorem calculateSimilarity_not_exact:
  "calculateSimilarity (replicate 40 97) (replicate 3 97)
     \<noteq> Inr (exact_similarity (replicate 40 97) (replicate 3 97))
   \<and> calculateSimilarity (replicate 40 97) (replicate 3 97) = Inr 7
   \<and> edit_distance (replicate 40 (97::nat)) (replicate 3 97) = 37
   \<and> exact_similarity (replicate 40 97) (replicate 3 97) = 8"
  using lev_forty_three scores_37_40
  by (simp add: calculateSimilarity_lev exact_similarity_def edit_distance_lev)

text \<open>
  Claim C3, amended. Two empty strings score 100; exactly one empty string scores 0;
  otherwise the score is \<^verbatim>\<open>Math.round\<close> of \<open>(1 - d / L) * 100\<close> evaluated in
  double-precision arithmetic, where \<open>d\<close> is the least number of insertions, deletions
  and substitutions that turn \<open>a\<close> into \<open>b\<close> and \<open>L\<close> is the greater length. The call
  never fails, and the score is an integer from 0 to 100.
\<close>

theorem calculateSimilarity_result:
  "calculateSimilarity a b =
     Inr (if a = [] \<and> b = [] then 100
          else if a = [] \<or> b = [] then 0
          else double_score (edit_distance a b) (max (length a) (length b)))
   \<and> (\<exists>n. calculateSimilarity a b = Inr n \<and> 0 \<le> n \<and> n \<le> 100)
   \<and> edits (edit_distance a b) a b
   \<and> (\<forall>k. edits k a b \<longrightarrow> edit_distance a b \<le> k)"
  using similarity_range [of a b] edits_lev [of a b] lev_le_edits [of _ a b]
  by (simp add: calculateSimilarity_eq similarity_def edit_distance_lev)

theorem calculateSimilarity_result_witness:
  "calculateSimilarity (js ''kitten'') (js ''sitting'') = Inr 57
   \<and> double_score (edit_distance (js ''kitten'') (js ''sitting'')) 7 = 57
   \<and> calculateSimilarity [] [] = Inr 100
   \<and> calculateSimilarity [] (js ''sitting'') = Inr 0
   \<and> calculateSimilarity (js ''kitten'') [] = Inr 0"
proof -
  have l: "max (length (js ''kitten'')) (length (js ''sitting'')) = 7"
    and n: "js ''kitten'' \<noteq> []" "js ''sitting'' \<noteq> []"
    by (simp_all add: js_def)
  from calculateSimilarity_result [of "js ''kitten''" "js ''sitting''"]
  have "double_score (edit_distance (js ''kitten'') (js ''sitting'')) 7 = 57"
    unfolding l sim_sitting using n by simp
  moreover from calculateSimilarity_result [of "[]" "[]"]
  have "calculateSimilarity [] [] = Inr 100" by simp
  moreover from calculateSimilarity_result [of "[]" "js ''sitting''"] n
  have "calculateSimilarity [] (js ''sitting'') = Inr 0" by simp
  moreover from calculateSimilarity_result [of "js ''kitten''" "[]"] n
  have "calculateSimilarity (js ''kitten'') [] = Inr 0" by simp
  ultimately show ?thesis using sim_sitting by simp
qed

text \<open>
  Claim C4. The similarity is symmetric: exchanging the two strings does not change
  the result.
\<close>

theorem calculateSimilarity_symmetric:
  "calculateSimilarity a b = calculateSimilarity b a"
  by (simp add: calculateSimilarity_eq similarity_sym [of a b])

theorem calculateSimilarity_symmetric_witness:
  "calculateSimilarity (js ''sitting'') (js ''kitten'') = Inr 57"
  using calculateSimilarity_symmetric [of "js ''sitting''" "js ''kitten''"] sim_sitting
  by simp

section \<open>The claims about the classifier\<close>

text \<open>
  Claim C1, as written: \<open>calculateMatch\<close> returns the result of the ordered rules of
  section 4.3 with the similarity of section 4.2, \<open>round ((1 - d / L) * 100)\<close>
  (\<open>classify_spec\<close>). The order of the rules is the order of the code, but the score
  can differ: for forty \<^verbatim>\<open>a\<close> against seventeen \<^verbatim>\<open>b\<close> followed by twenty-three
  \<^verbatim>\<open>a\<close> no earlier rule applies, \<open>d = 17\<close> and \<open>L = 40\<close>, the exact value 57.5 rounds
  to 58, and the code, computing in doubles, returns the score 57.
\<close>

theorem calculateMatch_not_spec_rules:
  "calculateMatch (js ''aaaaaaaaaaaaaaaaaaaaaaaaaaaaaaaaaaaaaaaa'')
       (js ''bbbbbbbbbbbbbbbbbaaaaaaaaaaaaaaaaaaaaaaa'') []
     \<noteq> Inr \<lparr>score = fst (classify_spec (js ''aaaaaaaaaaaaaaaaaaaaaaaaaaaaaaaaaaaaaaaa'')
                            (js ''bbbbbbbbbbbbbbbbbaaaaaaaaaaaaaaaaaaaaaaa'') []),
              feedback = snd (classify_spec (js ''aaaaaaaaaaaaaaaaaaaaaaaaaaaaaaaaaaaaaaaa'')
                            (js ''bbbbbbbbbbbbbbbbbaaaaaaaaaaaaaaaaaaaaaaa'') []),
              transcript = js ''bbbbbbbbbbbbbbbbbaaaaaaaaaaaaaaaaaaaaaaa''\<rparr>
   \<and> calculateMatch (js ''aaaaaaaaaaaaaaaaaaaaaaaaaaaaaaaaaaaaaaaa'')
       (js ''bbbbbbbbbbbbbbbbbaaaaaaaaaaaaaaaaaaaaaaa'') []
     = Inr \<lparr>score = 57, feedback = TryAgain,
            transcript = js ''bbbbbbbbbbbbbbbbbaaaaaaaaaaaaaaaaaaaaaaa''\<rparr>
   \<and> classify_spec (js ''aaaaaaaaaaaaaaaaaaaaaaaaaaaaaaaaaaaaaaaa'')
       (js ''bbbbbbbbbbbbbbbbbaaaaaaaaaaaaaaaaaaaaaaa'') [] = (58, TryAgain)"
  unfolding match_forty_b spec_forty_b by simp

text \<open>
  Claim C1, amended. For every target, spoken text and list of alternatives,
  \<open>calculateMatch\<close> returns the score and the tier that the ordered rules of section
  4.3 give, earlier rules first: equal normalized strings, then a matching
  alternative, then the spoken text containing the target, then the target containing
  a spoken text longer than 2, then the thresholds 80, 60 and 40; the similarity in
  these rules is the similarity of the two normalized strings as claim C3, amended,
  describes it, that is with \<open>(1 - d / L) * 100\<close> evaluated in double-precision
  arithmetic (\<open>classify\<close>).
\<close>

theorem calculateMatch_rules:
  "calculateMatch target spoken alternatives =
     Inr \<lparr>score = fst (classify target spoken alternatives),
          feedback = snd (classify target spoken alternatives),
          transcript = spoken\<rparr>"
  by (rule calculateMatch_eq)

theorem calculateMatch_rules_witness:
  "classify (js ''G'day, Mate!'') (js ''gday  mate'') [] = (100, Perfect)
   \<and> classify (js ''arvo'') (js ''this arvo'') [js ''this arvo'', js ''arvo''] = (95, Excellent)
   \<and> classify (js ''arvo'') (js ''this arvo'') [] = (85, Good)
   \<and> classify (js ''gday mate'') (js ''gday mates'') [] = (90, Good)
   \<and> classify (js ''no worries'') (js ''worries'') [] = (70, Partial)
   \<and> classify (js ''no worries'') (js ''no worrie'') [] = (90, Partial)
   \<and> classify (js ''hello'') (js ''hallo'') [] = (80, Good)
   \<and> classify (js ''hello'') (js ''help'') [] = (60, Close)
   \<and> classify (js ''good morning'') (js ''good afternoon'') [] = (50, TryAgain)
   \<and> classify (js ''cat'') (js ''dog'') [] = (0, Different)
   \<and> classify (js ''aaaaaaaaaaaaaaaaaaaaaaaaaaaaaaaaaaaaaaaa'')
         (js ''bbbbbbbbbbbbbbbbbaaaaaaaaaaaaaaaaaaaaaaa'') [] = (57, TryAgain)"
  using calculateMatch_rules [of "js ''G'day, Mate!''" "js ''gday  mate''" "[]"]
    calculateMatch_rules [of "js ''arvo''" "js ''this arvo''" "[js ''this arvo'', js ''arvo'']"]
    calculateMatch_rules [of "js ''arvo''" "js ''this arvo''" "[]"]
    calculateMatch_rules [of "js ''gday mate''" "js ''gday mates''" "[]"]
    calculateMatch_rules [of "js ''no worries''" "js ''worries''" "[]"]
    calculateMatch_rules [of "js ''no worries''" "js ''no worrie''" "[]"]
    calculateMatch_rules [of "js ''hello''" "js ''hallo''" "[]"]
    calculateMatch_rules [of "js ''hello''" "js ''help''" "[]"]
    calculateMatch_rules [of "js ''good morning''" "js ''good afternoon''" "[]"]
    calculateMatch_rules [of "js ''cat''" "js ''dog''" "[]"]
    calculateMatch_rules [of "js ''aaaaaaaaaaaaaaaaaaaaaaaaaaaaaaaaaaaaaaaa''"
       "js ''bbbbbbbbbbbbbbbbbaaaaaaaaaaaaaaaaaaaaaaa''" "[]"]
  unfolding match_gday match_this_arvo_alternative match_this_arvo match_gday_mates
    match_worries match_no_worrie match_hallo match_help match_good_afternoon match_dog
    match_forty_b
  by (simp add: prod_eq_iff)

text \<open>
  Claim C5. Classification is total and deterministic: for every input the call
  returns a result, never a failure, the result is unique, and its tier is the one the
  ordered rules give. The similarity computation inside never fails either.
\<close>

theorem calculateMatch_total:
  "(\<exists>!r. calculateMatch target spoken alternatives = Inr r)
   \<and> (\<forall>e. calculateMatch target spoken alternatives \<noteq> Inl e)
   \<and> (\<exists>r. calculateMatch target spoken alternatives = Inr r
          \<and> feedback r = snd (classify target spoken alternatives))
   \<and> (\<forall>a b e. calculateSimilarity a b \<noteq> Inl e)"
  by (simp add: calculateMatch_eq calculateSimilarity_eq)

theorem calculateMatch_total_witness:
  "(\<exists>r. calculateMatch [] [] [] = Inr r \<and> feedback r = Perfect)
   \<and> (\<exists>r. calculateMatch (js ''cat'') (js ''dog'') [] = Inr r \<and> feedback r = Different)"
  using calculateMatch_total [of "[]" "[]" "[]"] calculateMatch_total [of "js ''cat''" "js ''dog''" "[]"]
    match_dog
  by (simp add: calculateMatch_def norm_eval)

text \<open>
  Claim C6. The target \<^verbatim>\<open>good morning\<close> against the spoken \<^verbatim>\<open>good afternoon\<close> with
  no alternatives: the edit distance is 7 on a length of 14, the similarity is 50,
  well below 80, the tier is \<^verbatim>\<open>tryagain\<close> and the score is the similarity.
\<close>

theorem good_morning_good_afternoon:
  "edit_distance (normalizeString (js ''good morning''))
       (normalizeString (js ''good afternoon'')) = 7
   \<and> calculateSimilarity (normalizeString (js ''good morning''))
       (normalizeString (js ''good afternoon'')) = Inr 50
   \<and> calculateMatch (js ''good morning'') (js ''good afternoon'') []
       = Inr \<lparr>score = 50, feedback = TryAgain, transcript = js ''good afternoon''\<rparr>
   \<and> (50::int) < 80"
  by (simp add: norm_good_morning norm_good_afternoon sim_good_afternoon match_good_afternoon
      edit_distance_lev lev_good_afternoon)

text \<open>
  Claim C9. The score agrees with the tier: \<^verbatim>\<open>perfect\<close> has score 100, \<^verbatim>\<open>excellent\<close>
  95, \<^verbatim>\<open>good\<close> at least 80, \<^verbatim>\<open>partial\<close> at least 70, \<^verbatim>\<open>close\<close> 60 to 79,
  \<^verbatim>\<open>tryagain\<close> 40 to 59 and \<^verbatim>\<open>different\<close> 0 to 39.
\<close>

theorem calculateMatch_score_tier:
  "\<exists>r. calculateMatch target spoken alternatives = Inr r
      \<and> (case feedback r of
            Perfect \<Rightarrow> score r = 100
          | Excellent \<Rightarrow> score r = 95
          | Good \<Rightarrow> 80 \<le> score r
          | Close \<Rightarrow> 60 \<le> score r \<and> score r \<le> 79
          | Partial \<Rightarrow> 70 \<le> score r
          | TryAgain \<Rightarrow> 40 \<le> score r \<and> score r \<le> 59
          | Different \<Rightarrow> 0 \<le> score r \<and> score r \<le> 39)"
proof -
  let ?r = "\<lparr>score = fst (classify target spoken alternatives),
             feedback = snd (classify target spoken alternatives),
             transcript = spoken\<rparr>"
  have "calculateMatch target spoken alternatives = Inr ?r"
    by (rule calculateMatch_eq)
  moreover have "case feedback ?r of
            Perfect \<Rightarrow> score ?r = 100
          | Excellent \<Rightarrow> score ?r = 95
          | Good \<Rightarrow> 80 \<le> score ?r
          | Close \<Rightarrow> 60 \<le> score ?r \<and> score ?r \<le> 79
          | Partial \<Rightarrow> 70 \<le> score ?r
          | TryAgain \<Rightarrow> 40 \<le> score ?r \<and> score ?r \<le> 59
          | Different \<Rightarrow> 0 \<le> score ?r \<and> score ?r \<le> 39"
    using classify_consistent [of target spoken alternatives]
    by (cases "snd (classify target spoken alternatives)") simp_all
  ultimately show ?thesis by blast
qed

theorem calculateMatch_score_tier_witness:
  "(\<exists>r. calculateMatch (js ''hello'') (js ''help'') [] = Inr r
        \<and> feedback r = Close \<and> 60 \<le> score r \<and> score r \<le> 79)
   \<and> (\<exists>r. calculateMatch (js ''cat'') (js ''dog'') [] = Inr r
        \<and> feedback r = Different \<and> 0 \<le> score r \<and> score r \<le> 39)
   \<and> (\<exists>r. calculateMatch (js ''arvo'') (js ''this arvo'') [] = Inr r
        \<and> feedback r = Good \<and> 80 \<le> score r)"
  using calculateMatch_score_tier [of "js ''hello''" "js ''help''" "[]"]
    calculateMatch_score_tier [of "js ''cat''" "js ''dog''" "[]"]
    calculateMatch_score_tier [of "js ''arvo''" "js ''this arvo''" "[]"]
  unfolding match_help match_dog match_this_arvo
  by simp

section \<open>Properties of the review operation\<close>

text \<open>
  Claim C7. For every starting level in [0, 5] and every rating in [1, 5] the review
  succeeds; the new level is \<open>min (level + 1) 5\<close> when the rating is at least 3 and
  \<open>max (level - 1) 0\<close> when it is below 3; the new level is again in [0, 5].
\<close>

theorem recordReview_level:
  assumes "0 \<le> level p" and "level p \<le> 5" and "1 \<le> r" and "r \<le> 5"
  shows "\<exists>p'. recordReview p r now = Inr p'
           \<and> level p' = (if 3 \<le> r then min (level p + 1) 5 else max (level p - 1) 0)
           \<and> 0 \<le> level p' \<and> level p' \<le> 5"
  using assms by (simp add: recordReview_def Let_def)

theorem recordReview_level_witness:
  "\<exists>p'. recordReview \<lparr>cardId = ''arvo'', level = 5, lastReviewedAt = None, dueAt = None\<rparr> 4 1000
            = Inr p' \<and> level p' = 5"
  using recordReview_level
    [of "\<lparr>cardId = ''arvo'', level = 5, lastReviewedAt = None, dueAt = None\<rparr>" 4 1000]
  by auto

text \<open>
  The selection of due cards on the scenario of section 8: card A was never reviewed,
  card B has level 3 and was due yesterday, card C is due tomorrow; A and B are due, in
  this order, also when B comes first in the catalog, and a card whose due date is
  \<open>now\<close> is due.
\<close>

lemma getDueCards_scenario:
  "getDueCards
     [\<lparr>card_key = ''B'', term_text = ''barbie'', meaning = ''barbecue'', example = '''',
        category = ''food'', difficulty = Beginner\<rparr>,
      \<lparr>card_key = ''C'', term_text = ''servo'', meaning = ''service station'', example = '''',
        category = ''places'', difficulty = Beginner\<rparr>,
      \<lparr>card_key = ''A'', term_text = ''arvo'', meaning = ''afternoon'', example = '''',
        category = ''time'', difficulty = Beginner\<rparr>]
     [''B'' \<mapsto> \<lparr>cardId = ''B'', level = 3, lastReviewedAt = Some 0, dueAt = Some 900\<rparr>,
      ''C'' \<mapsto> \<lparr>cardId = ''C'', level = 1, lastReviewedAt = Some 0, dueAt = Some 1100\<rparr>]
     1000
   = [\<lparr>card_key = ''A'', term_text = ''arvo'', meaning = ''afternoon'', example = '''',
        category = ''time'', difficulty = Beginner\<rparr>,
      \<lparr>card_key = ''B'', term_text = ''barbie'', meaning = ''barbecue'', example = '''',
        category = ''food'', difficulty = Beginner\<rparr>]
   \<and> is_due [''B'' \<mapsto> \<lparr>cardId = ''B'', level = 3, lastReviewedAt = Some 0, dueAt = Some 1000\<rparr>]
        1000
        \<lparr>card_key = ''B'', term_text = ''barbie'', meaning = ''barbecue'', example = '''',
          category = ''food'', difficulty = Beginner\<rparr>"
  by (simp add: getDueCards_def is_due_def due_rank_def)

text \<open>
  Claim C8. The review fails exactly when the rating is outside 1..5, so for the
  ratings 0 and 6, and the failure is \<open>InvalidRating\<close>. \<open>InvalidRating\<close> is the only
  failure of the core: whichever of the four operations of the interface is called,
  a failure is \<open>InvalidRating\<close>, raised by a review whose rating is outside 1..5 (the
  failures of the matcher are never reached, and the two queries have none). On that
  failure the progress is not modified: the store after the call is the store before
  it, and so is the record of the card; a review that succeeds stores the record it
  returns.
\<close>

theorem recordReview_InvalidRating:
  "(recordReview p r now = Inl InvalidRating) = (r < 1 \<or> 5 < r)
   \<and> ((\<exists>p'. recordReview p r now = Inr p') = (1 \<le> r \<and> r \<le> 5))
   \<and> (\<forall>e. recordReview p r now = Inl e \<longrightarrow> e = InvalidRating)
   \<and> recordReview p 0 now = Inl InvalidRating
   \<and> recordReview p 6 now = Inl InvalidRating
   \<and> (\<forall>target spoken alternatives e. calculateMatch target spoken alternatives \<noteq> Inl e)
   \<and> (\<forall>c f. core c = Inl f \<longrightarrow>
          f = Rating InvalidRating
          \<and> (\<exists>p' r' now'. c = RecordReview p' r' now' \<and> (r' < 1 \<or> 5 < r')))
   \<and> ((fst (updateCardProgress store k r now) = Some InvalidRating) = (r < 1 \<or> 5 < r))
   \<and> ((fst (updateCardProgress store k r now) = None) = (1 \<le> r \<and> r \<le> 5))
   \<and> (r < 1 \<or> 5 < r \<longrightarrow>
          snd (updateCardProgress store k r now) = store
          \<and> getCardProgress (snd (updateCardProgress store k r now)) k = getCardProgress store k)
   \<and> (1 \<le> r \<and> r \<le> 5 \<longrightarrow>
          recordReview (getCardProgress store k) r now
            = Inr (getCardProgress (snd (updateCardProgress store k r now)) k)
          \<and> (\<forall>k'. k' \<noteq> k \<longrightarrow> snd (updateCardProgress store k r now) k' = store k'))"
proof -
  have core_fail: "f = Rating InvalidRating
      \<and> (\<exists>p' r' now'. c = RecordReview p' r' now' \<and> (r' < 1 \<or> 5 < r'))"
    if "core c = Inl f" for c f
  proof (cases c)
    case (EvaluatePronunciation target spoken alternatives)
    with that show ?thesis by (simp add: calculateMatch_eq)
  next
    case (RecordReview p' r' now')
    with that show ?thesis
      by (cases "r' < 1 \<or> 5 < r'") (auto simp: recordReview_def Let_def)
  next
    case (GetDueCards catalog progress now')
    with that show ?thesis by simp
  next
    case (GetCardProgress progress k')
    with that show ?thesis by simp
  qed
  have review: "(recordReview p r now = Inl InvalidRating) = (r < 1 \<or> 5 < r)"
    "(\<exists>p'. recordReview p r now = Inr p') = (1 \<le> r \<and> r \<le> 5)"
    "\<forall>e. recordReview p r now = Inl e \<longrightarrow> e = InvalidRating"
    "recordReview p 0 now = Inl InvalidRating" "recordReview p 6 now = Inl InvalidRating"
    by (auto simp: recordReview_def Let_def intro: core_error.exhaust)
  have update: "(fst (updateCardProgress store k r now) = Some InvalidRating) = (r < 1 \<or> 5 < r)"
    "(fst (updateCardProgress store k r now) = None) = (1 \<le> r \<and> r \<le> 5)"
    "r < 1 \<or> 5 < r \<longrightarrow>
       snd (updateCardProgress store k r now) = store
       \<and> getCardProgress (snd (updateCardProgress store k r now)) k = getCardProgress store k"
    "1 \<le> r \<and> r \<le> 5 \<longrightarrow>
       recordReview (getCardProgress store k) r now
         = Inr (getCardProgress (snd (updateCardProgress store k r now)) k)
       \<and> (\<forall>k'. k' \<noteq> k \<longrightarrow> snd (updateCardProgress store k r now) k' = store k')"
    by (auto simp: updateCardProgress_def recordReview_def Let_def getCardProgress_def)
  from core_fail review update show ?thesis
    by (simp add: calculateMatch_eq)
qed

theorem recordReview_InvalidRating_witness:
  "recordReview \<lparr>cardId = ''arvo'', level = 2, lastReviewedAt = None, dueAt = None\<rparr> 6 1000
     = Inl InvalidRating
   \<and> recordReview \<lparr>cardId = ''arvo'', level = 2, lastReviewedAt = None, dueAt = None\<rparr> 2 1000
     = Inr \<lparr>cardId = ''arvo'', level = 1, lastReviewedAt = Some 1000,
            dueAt = Some (1000 + 86400000)\<rparr>
   \<and> core (RecordReview \<lparr>cardId = ''arvo'', level = 2, lastReviewedAt = None, dueAt = None\<rparr>
        6 1000) = Inl (Rating InvalidRating)
   \<and> updateCardProgress
        [''arvo'' \<mapsto> \<lparr>cardId = ''arvo'', level = 2, lastReviewedAt = None, dueAt = None\<rparr>]
        ''arvo'' 6 1000
      = (Some InvalidRating,
         [''arvo'' \<mapsto> \<lparr>cardId = ''arvo'', level = 2, lastReviewedAt = None, dueAt = None\<rparr>])
   \<and> getCardProgress (snd (updateCardProgress
        [''arvo'' \<mapsto> \<lparr>cardId = ''arvo'', level = 2, lastReviewedAt = None, dueAt = None\<rparr>]
        ''arvo'' 2 1000)) ''arvo''
      = \<lparr>cardId = ''arvo'', level = 1, lastReviewedAt = Some 1000,
          dueAt = Some (1000 + 86400000)\<rparr>"
  using recordReview_InvalidRating
    [of "\<lparr>cardId = ''arvo'', level = 2, lastReviewedAt = None, dueAt = None\<rparr>" 6 1000
        "[''arvo'' \<mapsto> \<lparr>cardId = ''arvo'', level = 2, lastReviewedAt = None, dueAt = None\<rparr>]"
        "''arvo''"]
  by (simp add: recordReview_def updateCardProgress_def getCardProgress_def
      interval_days_def day_ms_def)

end
